theory Spec2Isabelle
  imports Main "HOL-Library.Word" "HOL-Library.Multiset" "HOL-Library.AList" "HOL-Library.Sublist"
begin

section \<open>Go values used by the cgroups memory controller and the collector\<close>

type_synonym u64 = "64 word"

subsection \<open>Errors\<close>

text \<open>
  A Go \<open>error\<close> value. The three shapes the source distinguishes:
  \<^item> \<open>*os.PathError{Op, Path, Err}\<close>, what \<open>os\<close> and \<open>ioutil\<close> calls return;
  \<^item> \<open>syscall.Errno\<close>, a bare kernel error number;
  \<^item> an \<open>errors.New\<close> / \<open>fmt.Errorf\<close> value, known by its text.
  A nil error is \<open>None\<close> of \<open>error option\<close>.
\<close>

datatype error =
    PathError string string error
  | Errno nat
  | ErrorString string

definition EBUSY :: nat where
  "EBUSY = 16"

definition ErrAlreadyCollected :: error where
  "ErrAlreadyCollected = ErrorString ''cgroup is already being collected''"

subsection \<open>strconv and fmt: decimal text\<close>

definition digit :: "nat \<Rightarrow> char" where
  "digit d = ''0123456789'' ! d"

fun decimal :: "nat \<Rightarrow> string" where
  "decimal n = (if n < 10 then [digit n] else decimal (n div 10) @ [digit (n mod 10)])"

declare decimal.simps [simp del]

text \<open>\<open>strconv.FormatUint(v, 10)\<close> on a \<open>uint64\<close>.\<close>

definition FormatUint :: "u64 \<Rightarrow> string" where
  "FormatUint v = decimal (unat v)"

text \<open>\<open>strconv.FormatInt(i, 10)\<close>; the source calls it on the constants 1 and -1 only.\<close>

definition FormatInt :: "int \<Rightarrow> string" where
  "FormatInt i = (if i < 0 then CHR ''-'' # decimal (nat (- i)) else decimal (nat i))"

subsection \<open>strings.Join and path/filepath\<close>

fun strings_Join :: "string list \<Rightarrow> string \<Rightarrow> string" where
  "strings_Join [] sep = []"
| "strings_Join [x] sep = x"
| "strings_Join (x # y # ys) sep = x @ sep @ strings_Join (y # ys) sep"

text \<open>The elements of a path between its separators (empty ones included).\<close>

fun elements :: "string \<Rightarrow> string list" where
  "elements [] = [[]]"
| "elements (c # cs) =
     (if c = CHR ''/'' then [] # elements cs
      else (case elements cs of [] \<Rightarrow> [[c]] | e # es \<Rightarrow> (c # e) # es))"

text \<open>
  One element of the path met by \<open>filepath.Clean\<close>, with the elements kept so far
  (\<open>out\<close>): an empty element and \<open>.\<close> are dropped; \<open>..\<close> removes the last kept
  element when that is not itself \<open>..\<close>, is dropped at the top of a rooted path, and is
  kept at the front of a relative one; any other element is kept.
\<close>

definition clean_step :: "bool \<Rightarrow> string list \<Rightarrow> string \<Rightarrow> string list" where
  "clean_step rooted out e =
     (if e = [] \<or> e = ''.'' then out
      else if e = ''..'' then
        (if out \<noteq> [] \<and> last out \<noteq> ''..'' then butlast out
         else if \<not> rooted then out @ [e]
         else out)
      else out @ [e])"

definition Clean :: "string \<Rightarrow> string" where
  "Clean p =
     (if p = [] then ''.''
      else
        (let rooted = (hd p = CHR ''/'');
             out = foldl (clean_step rooted) [] (elements p)
         in if rooted then CHR ''/'' # strings_Join out ''/''
            else if out = [] then ''.''
            else strings_Join out ''/''))"

text \<open>
  \<open>filepath.Join(elem...)\<close>: the elements from the first non-empty one on, joined with
  the separator and cleaned; the empty string when every element is empty.
\<close>

definition Join :: "string list \<Rightarrow> string" where
  "Join elem =
     (case dropWhile (\<lambda>e. e = []) elem of
        [] \<Rightarrow> []
      | e # es \<Rightarrow> Clean (strings_Join (e # es) ''/''))"

section \<open>The memory controller\<close>

record memoryController =
  root :: string

text \<open>The controller name \<open>Memory\<close> of package cgroups (\<open>Name\<close> is a string type).\<close>

definition Memory_Name :: string where
  "Memory_Name = ''memory''"

definition NewMemory :: "string \<Rightarrow> memoryController" where
  "NewMemory r = \<lparr> root = Join [r, Memory_Name] \<rparr>"

definition Name :: "memoryController \<Rightarrow> string" where
  "Name m = Memory_Name"

definition Path :: "memoryController \<Rightarrow> string \<Rightarrow> string" where
  "Path m path = Join [root m, path]"

subsection \<open>The operating system\<close>

text \<open>
  What the controller does to the kernel's filesystem, as the calls it makes. The
  behaviour of the system is a parameter: a record of functions over a world \<open>'w\<close>,
  each giving the call's result and the world after it.
  \<^item> \<open>os_MkdirAll\<close>: \<open>os.MkdirAll(path, defaultDirPerm)\<close>;
  \<^item> \<open>os_WriteFile\<close>: \<open>ioutil.WriteFile(name, data, defaultFilePerm)\<close>;
  \<^item> \<open>os_readUint\<close>: \<open>readUint(path)\<close>, the helper of package cgroups that reads a
    file and parses it as a \<open>uint64\<close> (its body is not part of the code at hand);
  \<^item> \<open>os_Scan\<close>: \<open>os.Open(name)\<close> for reading with a \<open>bufio.Scanner\<close>: the error of
    the open, or the calls of \<open>Scan()\<close> that return true, each with its \<open>Text()\<close> and
    the \<open>Err()\<close> the scanner reports at that moment (the scanner hands out the data it
    holds when a read fails, so a line can come with an error); what the scanner does once
    \<open>Scan()\<close> has returned false is not looked at by the source, and the deferred
    \<open>f.Close()\<close> of the file is part of this call;
  \<^item> \<open>os_Open\<close>, \<open>os_OpenFile\<close>: \<open>os.Open(name)\<close> and
    \<open>os.OpenFile(name, O_WRONLY, 0)\<close>, giving the descriptor of the open file;
  \<^item> \<open>os_eventfd2\<close>: \<open>RawSyscall(SYS_EVENTFD2, 0, FD_CLOEXEC, 0)\<close>, giving the
    descriptor and the error number (0 for none);
  \<^item> \<open>os_WriteString\<close>: \<open>f.WriteString(s)\<close> on an open file;
  \<^item> \<open>os_Close\<close>: \<open>f.Close()\<close> and \<open>syscall.Close(fd)\<close>, whose results the source
    ignores.
  Reads leave the world as it is. An open file is known by its descriptor (\<open>f.Fd()\<close>),
  a \<open>uintptr\<close> taken as a natural number.
\<close>

record 'w os =
  os_MkdirAll :: "string \<Rightarrow> 'w \<Rightarrow> error option \<times> 'w"
  os_WriteFile :: "string \<Rightarrow> string \<Rightarrow> 'w \<Rightarrow> error option \<times> 'w"
  os_readUint :: "string \<Rightarrow> 'w \<Rightarrow> error + u64"
  os_Scan :: "string \<Rightarrow> 'w \<Rightarrow> error + (string \<times> error option) list"
  os_Open :: "string \<Rightarrow> 'w \<Rightarrow> (error + nat) \<times> 'w"
  os_OpenFile :: "string \<Rightarrow> 'w \<Rightarrow> (error + nat) \<times> 'w"
  os_eventfd2 :: "'w \<Rightarrow> (nat \<times> nat) \<times> 'w"
  os_WriteString :: "nat \<Rightarrow> string \<Rightarrow> 'w \<Rightarrow> error option \<times> 'w"
  os_Close :: "nat \<Rightarrow> 'w \<Rightarrow> 'w"

text \<open>The calls made, in the order they are made.\<close>

datatype event =
    EvMkdirAll string
  | EvWriteFile string string
  | EvReadUint string
  | EvScan string
  | EvOpen string "nat option"
  | EvOpenFile string "nat option"
  | EvEventfd "nat option"
  | EvWriteString nat string
  | EvFileClose nat
  | EvSyscallClose nat

record 'w st =
  world :: 'w
  trace :: "event list"

definition MkdirAll :: "'w os \<Rightarrow> string \<Rightarrow> 'w st \<Rightarrow> error option \<times> 'w st" where
  "MkdirAll sys p s =
     (case os_MkdirAll sys p (world s) of
        (r, w) \<Rightarrow> (r, \<lparr> world = w, trace = trace s @ [EvMkdirAll p] \<rparr>))"

definition WriteFile :: "'w os \<Rightarrow> string \<Rightarrow> string \<Rightarrow> 'w st \<Rightarrow> error option \<times> 'w st" where
  "WriteFile sys p d s =
     (case os_WriteFile sys p d (world s) of
        (r, w) \<Rightarrow> (r, \<lparr> world = w, trace = trace s @ [EvWriteFile p d] \<rparr>))"

definition readUint :: "'w os \<Rightarrow> string \<Rightarrow> 'w st \<Rightarrow> (error + u64) \<times> 'w st" where
  "readUint sys p s =
     (os_readUint sys p (world s), s\<lparr> trace := trace s @ [EvReadUint p] \<rparr>)"

subsection \<open>Resources\<close>

text \<open>
  The fields of \<open>specs.LinuxResources\<close> and \<open>specs.LinuxMemory\<close> the controller reads.
  A nil pointer is \<open>None\<close>.
\<close>

record LinuxMemory =
  Limit :: "u64 option"
  Reservation :: "u64 option"
  Swap :: "u64 option"
  Kernel :: "u64 option"
  KernelTCP :: "u64 option"
  Swappiness :: "u64 option"

record LinuxResources =
  Memory :: "LinuxMemory option"
  DisableOOMKiller :: "bool option"

text \<open>A call either returns or panics (a nil pointer dereference, an index out of range).\<close>

datatype 'a outcome = Panic | Return 'a

record memorySettings =
  name :: string
  val :: "u64 option"

definition getOomControlValue :: "LinuxResources \<Rightarrow> u64 option" where
  "getOomControlValue resources =
     (case DisableOOMKiller resources of
        Some True \<Rightarrow> Some 1
      | _ \<Rightarrow> None)"

definition getMemorySettings :: "LinuxResources \<Rightarrow> memorySettings list outcome" where
  "getMemorySettings resources =
     (case Memory resources of
        None \<Rightarrow> Panic
      | Some mem \<Rightarrow>
          (let swappiness = (case Swappiness mem of None \<Rightarrow> None | Some v \<Rightarrow> Some v)
           in Return
             [\<lparr> name = ''limit_in_bytes'', val = Limit mem \<rparr>,
              \<lparr> name = ''memsw.limit_in_bytes'', val = Swap mem \<rparr>,
              \<lparr> name = ''kmem.limit_in_bytes'', val = Kernel mem \<rparr>,
              \<lparr> name = ''kmem.tcp.limit_in_bytes'', val = KernelTCP mem \<rparr>,
              \<lparr> name = ''oom_control'', val = getOomControlValue resources \<rparr>,
              \<lparr> name = ''swappiness'', val = swappiness \<rparr>]))"

text \<open>\<open>memoryController.set\<close>: the settings in order, stopping at the first write that fails.\<close>

fun set_mem ::
  "'w os \<Rightarrow> memoryController \<Rightarrow> string \<Rightarrow> memorySettings list \<Rightarrow> 'w st \<Rightarrow> error option \<times> 'w st"
where
  "set_mem sys m path [] s = (None, s)"
| "set_mem sys m path (t # ts) s =
     (case val t of
        None \<Rightarrow> set_mem sys m path ts s
      | Some v \<Rightarrow>
          (case WriteFile sys (Join [Path m path, ''memory.'' @ name t]) (FormatUint v) s of
             (Some err, s') \<Rightarrow> (Some err, s')
           | (None, s') \<Rightarrow> set_mem sys m path ts s'))"

definition checkEBUSY :: "error \<Rightarrow> error" where
  "checkEBUSY err =
     (case err of
        PathError op p (Errno errNo) \<Rightarrow>
          (if errNo = EBUSY
           then ErrorString ''failed to set memory.kmem.limit_in_bytes, because either tasks have already joined this cgroup or it has children''
           else err)
      | _ \<Rightarrow> err)"

text \<open>The loop of \<open>Create\<close> over \<open>[]int64{1, -1}\<close>.\<close>

fun kmem_probe ::
  "'w os \<Rightarrow> memoryController \<Rightarrow> string \<Rightarrow> int list \<Rightarrow> 'w st \<Rightarrow> error option \<times> 'w st"
where
  "kmem_probe sys m path [] s = (None, s)"
| "kmem_probe sys m path (i # is) s =
     (case WriteFile sys (Join [Path m path, ''memory.kmem.limit_in_bytes'']) (FormatInt i) s of
        (Some err, s') \<Rightarrow> (Some (checkEBUSY err), s')
      | (None, s') \<Rightarrow> kmem_probe sys m path is s')"

definition Create ::
  "'w os \<Rightarrow> memoryController \<Rightarrow> string \<Rightarrow> LinuxResources option \<Rightarrow> 'w st
     \<Rightarrow> error option outcome \<times> 'w st"
where
  "Create sys m path resources s =
     (case MkdirAll sys (Path m path) s of
        (Some err, s1) \<Rightarrow> (Return (Some err), s1)
      | (None, s1) \<Rightarrow>
          (case resources of
             None \<Rightarrow> (Panic, s1)
           | Some r \<Rightarrow>
               (case Memory r of
                  None \<Rightarrow> (Return None, s1)
                | Some mem \<Rightarrow>
                    (case (if Kernel mem \<noteq> None then kmem_probe sys m path [1, - 1] s1
                           else (None, s1)) of
                       (Some err, s2) \<Rightarrow> (Return (Some err), s2)
                     | (None, s2) \<Rightarrow>
                         (case getMemorySettings r of
                            Panic \<Rightarrow> (Panic, s2)
                          | Return settings \<Rightarrow>
                              (case set_mem sys m path settings s2 of
                                 (err, s3) \<Rightarrow> (Return err, s3)))))))"

text \<open>The closure \<open>g\<close> of \<open>Update\<close>.\<close>

definition g :: "u64 option \<Rightarrow> bool" where
  "g v = (case v of None \<Rightarrow> False | Some x \<Rightarrow> x > 0)"

definition Update ::
  "'w os \<Rightarrow> memoryController \<Rightarrow> string \<Rightarrow> LinuxResources option \<Rightarrow> 'w st
     \<Rightarrow> error option outcome \<times> 'w st"
where
  "Update sys m path resources s =
     (case resources of
        None \<Rightarrow> (Panic, s)
      | Some r \<Rightarrow>
          (case Memory r of
             None \<Rightarrow> (Return None, s)
           | Some mem \<Rightarrow>
               (case getMemorySettings r of
                  Panic \<Rightarrow> (Panic, s)
                | Return settings \<Rightarrow>
                    (if g (Limit mem) \<and> g (Swap mem) then
                       (case readUint sys (Join [Path m path, ''memory.limit_in_bytes'']) s of
                          (Inl err, s1) \<Rightarrow> (Return (Some err), s1)
                        | (Inr current, s1) \<Rightarrow>
                            (case Swap mem of
                               None \<Rightarrow> (Panic, s1)
                             | Some swap \<Rightarrow>
                                 (if current < swap then
                                    (if length settings < 2 then (Panic, s1)
                                     else
                                       (case set_mem sys m path
                                               (settings[0 := settings ! 1, 1 := settings ! 0]) s1 of
                                          (err, s2) \<Rightarrow> (Return err, s2)))
                                  else
                                    (case set_mem sys m path settings s1 of
                                       (err, s2) \<Rightarrow> (Return err, s2)))))
                     else
                       (case set_mem sys m path settings s of
                          (err, s1) \<Rightarrow> (Return err, s1))))))"

subsection \<open>OOM event registration\<close>

definition Open :: "'w os \<Rightarrow> string \<Rightarrow> 'w st \<Rightarrow> (error + nat) \<times> 'w st" where
  "Open sys p s =
     (case os_Open sys p (world s) of
        (Inl err, w) \<Rightarrow> (Inl err, \<lparr> world = w, trace = trace s @ [EvOpen p None] \<rparr>)
      | (Inr f, w) \<Rightarrow> (Inr f, \<lparr> world = w, trace = trace s @ [EvOpen p (Some f)] \<rparr>))"

definition OpenFile :: "'w os \<Rightarrow> string \<Rightarrow> 'w st \<Rightarrow> (error + nat) \<times> 'w st" where
  "OpenFile sys p s =
     (case os_OpenFile sys p (world s) of
        (Inl err, w) \<Rightarrow> (Inl err, \<lparr> world = w, trace = trace s @ [EvOpenFile p None] \<rparr>)
      | (Inr f, w) \<Rightarrow> (Inr f, \<lparr> world = w, trace = trace s @ [EvOpenFile p (Some f)] \<rparr>))"

text \<open>
  \<open>syscall.RawSyscall(syscall.SYS_EVENTFD2, 0, syscall.FD_CLOEXEC, 0)\<close>: the first result
  and the error number.
\<close>

definition eventfd2 :: "'w os \<Rightarrow> 'w st \<Rightarrow> (nat \<times> nat) \<times> 'w st" where
  "eventfd2 sys s =
     (case os_eventfd2 sys (world s) of
        ((fd, serr), w) \<Rightarrow>
          ((fd, serr),
           \<lparr> world = w, trace = trace s @ [EvEventfd (if serr = 0 then Some fd else None)] \<rparr>))"

definition WriteString :: "'w os \<Rightarrow> nat \<Rightarrow> string \<Rightarrow> 'w st \<Rightarrow> error option \<times> 'w st" where
  "WriteString sys f d s =
     (case os_WriteString sys f d (world s) of
        (r, w) \<Rightarrow> (r, \<lparr> world = w, trace = trace s @ [EvWriteString f d] \<rparr>))"

definition FileClose :: "'w os \<Rightarrow> nat \<Rightarrow> 'w st \<Rightarrow> 'w st" where
  "FileClose sys f s = \<lparr> world = os_Close sys f (world s), trace = trace s @ [EvFileClose f] \<rparr>"

definition syscall_Close :: "'w os \<Rightarrow> nat \<Rightarrow> 'w st \<Rightarrow> 'w st" where
  "syscall_Close sys fd s =
     \<lparr> world = os_Close sys fd (world s), trace = trace s @ [EvSyscallClose fd] \<rparr>"

text \<open>\<open>fmt.Sprintf("%d %d", a, b)\<close> on two \<open>uintptr\<close>.\<close>

definition Sprintf_d_d :: "nat \<Rightarrow> nat \<Rightarrow> string" where
  "Sprintf_d_d a b = decimal a @ '' '' @ decimal b"

definition writeEventFD :: "'w os \<Rightarrow> string \<Rightarrow> nat \<Rightarrow> nat \<Rightarrow> 'w st \<Rightarrow> error option \<times> 'w st" where
  "writeEventFD sys rt cfd efd s =
     (case OpenFile sys (Join [rt, ''cgroup.event_control'']) s of
        (Inl err, s1) \<Rightarrow> (Some err, s1)
      | (Inr f, s1) \<Rightarrow>
          (case WriteString sys f (Sprintf_d_d efd cfd) s1 of
             (err, s2) \<Rightarrow> (err, FileClose sys f s2)))"

text \<open>
  \<open>OOMEventFD\<close> returns \<open>(uintptr, error)\<close>. The deferred \<open>f.Close()\<close> runs last on every
  path after the open.
\<close>

definition OOMEventFD ::
  "'w os \<Rightarrow> memoryController \<Rightarrow> string \<Rightarrow> 'w st \<Rightarrow> (nat \<times> error option) \<times> 'w st"
where
  "OOMEventFD sys m path s =
     (let rt = Path m path in
      case Open sys (Join [rt, ''memory.oom_control'']) s of
        (Inl err, s1) \<Rightarrow> ((0, Some err), s1)
      | (Inr f, s1) \<Rightarrow>
          (case eventfd2 sys s1 of
             ((fd, serr), s2) \<Rightarrow>
               (if serr \<noteq> 0 then ((0, Some (Errno serr)), FileClose sys f s2)
                else
                  (case writeEventFD sys rt f fd s2 of
                     (Some err, s3) \<Rightarrow>
                       ((0, Some err), FileClose sys f (syscall_Close sys fd s3))
                   | (None, s3) \<Rightarrow> ((fd, None), FileClose sys f s3)))))"

text \<open>The descriptors a sequence of calls leaves open: those obtained and not closed.\<close>

fun fd_effect :: "nat multiset \<Rightarrow> event \<Rightarrow> nat multiset" where
  "fd_effect fds (EvOpen p (Some f)) = add_mset f fds"
| "fd_effect fds (EvOpenFile p (Some f)) = add_mset f fds"
| "fd_effect fds (EvEventfd (Some fd)) = add_mset fd fds"
| "fd_effect fds (EvFileClose f) = fds - {#f#}"
| "fd_effect fds (EvSyscallClose fd) = fds - {#fd#}"
| "fd_effect fds ev = fds"

definition left_open :: "event list \<Rightarrow> nat multiset" where
  "left_open evs = foldl fd_effect {#} evs"

subsection \<open>Statistics\<close>

record MemoryEntry =
  entry_Limit :: u64
  entry_Usage :: u64
  entry_Max :: u64
  entry_Failcnt :: u64

record MemoryStat =
  Cache :: u64
  RSS :: u64
  RSSHuge :: u64
  MappedFile :: u64
  Dirty :: u64
  Writeback :: u64
  PgPgIn :: u64
  PgPgOut :: u64
  PgFault :: u64
  PgMajFault :: u64
  InactiveAnon :: u64
  ActiveAnon :: u64
  InactiveFile :: u64
  ActiveFile :: u64
  Unevictable :: u64
  HierarchicalMemoryLimit :: u64
  HierarchicalSwapLimit :: u64
  TotalCache :: u64
  TotalRSS :: u64
  TotalRSSHuge :: u64
  TotalMappedFile :: u64
  TotalDirty :: u64
  TotalWriteback :: u64
  TotalPgPgIn :: u64
  TotalPgPgOut :: u64
  TotalPgFault :: u64
  TotalPgMajFault :: u64
  TotalInactiveAnon :: u64
  TotalActiveAnon :: u64
  TotalInactiveFile :: u64
  TotalActiveFile :: u64
  TotalUnevictable :: u64
  stat_Usage :: MemoryEntry
  stat_Swap :: MemoryEntry
  stat_Kernel :: MemoryEntry
  stat_KernelTCP :: MemoryEntry

text \<open>\<open>cgroups.Stats\<close>: the controller sets the \<open>Memory\<close> field and no other.\<close>

record Stats =
  Stats_Memory :: "MemoryStat option"

text \<open>
  The scanner loop of \<open>parseStats\<close> over the calls of \<open>Scan()\<close> that return true: the
  scanner's error is looked at first, then the line is parsed by \<open>parseKV\<close>. That helper
  of package cgroups is not part of the code at hand and is a parameter here (\<open>pkv\<close>).
  The map \<open>out\<close> is a \<open>map[string]uint64\<close>.
\<close>

fun parse_lines ::
  "(string \<Rightarrow> error + string \<times> u64) \<Rightarrow> (string \<times> error option) list \<Rightarrow> (string \<rightharpoonup> u64)
     \<Rightarrow> error + (string \<rightharpoonup> u64)"
where
  "parse_lines pkv [] out = Inr out"
| "parse_lines pkv ((text, scerr) # rest) out =
     (case scerr of
        Some err \<Rightarrow> Inl err
      | None \<Rightarrow>
          (case pkv text of
             Inl err \<Rightarrow> Inl err
           | Inr (key, v) \<Rightarrow> parse_lines pkv rest (out(key \<mapsto> v))))"

definition Scan :: "'w os \<Rightarrow> string \<Rightarrow> 'w st \<Rightarrow> (error + (string \<times> error option) list) \<times> 'w st" where
  "Scan sys p s = (os_Scan sys p (world s), s\<lparr> trace := trace s @ [EvScan p] \<rparr>)"

definition parseStats ::
  "'w os \<Rightarrow> (string \<Rightarrow> error + string \<times> u64) \<Rightarrow> memoryController \<Rightarrow> string \<Rightarrow> 'w st
     \<Rightarrow> (error + (string \<rightharpoonup> u64)) \<times> 'w st"
where
  "parseStats sys pkv m path s =
     (case Scan sys (Join [Path m path, ''memory.stat'']) s of
        (Inl err, s1) \<Rightarrow> (Inl err, s1)
      | (Inr steps, s1) \<Rightarrow> (parse_lines pkv steps Map.empty, s1))"

text \<open>Reading a Go map at a key: the zero value when the key is absent.\<close>

definition raw_get :: "(string \<rightharpoonup> u64) \<Rightarrow> string \<Rightarrow> u64" where
  "raw_get raw k = (case raw k of None \<Rightarrow> 0 | Some v \<Rightarrow> v)"

text \<open>The inner table of \<open>Stat\<close>: a file name and the field of the entry it fills.\<close>

definition usage_fields :: "(string \<times> (u64 \<Rightarrow> MemoryEntry \<Rightarrow> MemoryEntry)) list" where
  "usage_fields =
     [(''usage_in_bytes'', \<lambda>v e. e\<lparr> entry_Usage := v \<rparr>),
      (''max_usage_in_bytes'', \<lambda>v e. e\<lparr> entry_Max := v \<rparr>),
      (''failcnt'', \<lambda>v e. e\<lparr> entry_Failcnt := v \<rparr>),
      (''limit_in_bytes'', \<lambda>v e. e\<lparr> entry_Limit := v \<rparr>)]"

text \<open>The outer table of \<open>Stat\<close>: a module and the entry of the memory statistics it fills.\<close>

definition usage_modules ::
  "(string \<times> (MemoryStat \<Rightarrow> MemoryEntry) \<times> (MemoryEntry \<Rightarrow> MemoryStat \<Rightarrow> MemoryStat)) list"
where
  "usage_modules =
     [([], stat_Usage, \<lambda>e ms. ms\<lparr> stat_Usage := e \<rparr>),
      (''memsw'', stat_Swap, \<lambda>e ms. ms\<lparr> stat_Swap := e \<rparr>),
      (''kmem'', stat_Kernel, \<lambda>e ms. ms\<lparr> stat_Kernel := e \<rparr>),
      (''kmem.tcp'', stat_KernelTCP, \<lambda>e ms. ms\<lparr> stat_KernelTCP := e \<rparr>)]"

definition usage_file :: "string \<Rightarrow> string \<Rightarrow> string" where
  "usage_file module nm =
     strings_Join ([''memory''] @ (if module \<noteq> [] then [module] else []) @ [nm]) ''.''"

fun read_fields ::
  "'w os \<Rightarrow> memoryController \<Rightarrow> string \<Rightarrow> string
     \<Rightarrow> (string \<times> (u64 \<Rightarrow> MemoryEntry \<Rightarrow> MemoryEntry)) list \<Rightarrow> MemoryEntry \<Rightarrow> 'w st
     \<Rightarrow> (error option \<times> MemoryEntry) \<times> 'w st"
where
  "read_fields sys m path module [] e s = ((None, e), s)"
| "read_fields sys m path module ((nm, setv) # rest) e s =
     (case readUint sys (Join [Path m path, usage_file module nm]) s of
        (Inl err, s1) \<Rightarrow> ((Some err, e), s1)
      | (Inr v, s1) \<Rightarrow> read_fields sys m path module rest (setv v e) s1)"

fun read_modules ::
  "'w os \<Rightarrow> memoryController \<Rightarrow> string
     \<Rightarrow> (string \<times> (MemoryStat \<Rightarrow> MemoryEntry) \<times> (MemoryEntry \<Rightarrow> MemoryStat \<Rightarrow> MemoryStat)) list
     \<Rightarrow> MemoryStat \<Rightarrow> 'w st \<Rightarrow> (error option \<times> MemoryStat) \<times> 'w st"
where
  "read_modules sys m path [] ms s = ((None, ms), s)"
| "read_modules sys m path ((module, entry, set_entry) # rest) ms s =
     (case read_fields sys m path module usage_fields (entry ms) s of
        ((Some err, e), s1) \<Rightarrow> ((Some err, set_entry e ms), s1)
      | ((None, e), s1) \<Rightarrow> read_modules sys m path rest (set_entry e ms) s1)"

definition zero_entry :: MemoryEntry where
  "zero_entry = \<lparr> entry_Limit = 0, entry_Usage = 0, entry_Max = 0, entry_Failcnt = 0 \<rparr>"

definition named_stats :: "(string \<rightharpoonup> u64) \<Rightarrow> MemoryStat" where
  "named_stats raw =
     \<lparr>
        Cache = raw_get raw ''cache'',
        RSS = raw_get raw ''rss'',
        RSSHuge = raw_get raw ''rss_huge'',
        MappedFile = raw_get raw ''mapped_file'',
        Dirty = raw_get raw ''dirty'',
        Writeback = raw_get raw ''writeback'',
        PgPgIn = raw_get raw ''pgpgin'',
        PgPgOut = raw_get raw ''pgpgout'',
        PgFault = raw_get raw ''pgfault'',
        PgMajFault = raw_get raw ''pgmajfault'',
        InactiveAnon = raw_get raw ''inactive_anon'',
        ActiveAnon = raw_get raw ''active_anon'',
        InactiveFile = raw_get raw ''inactive_file'',
        ActiveFile = raw_get raw ''active_file'',
        Unevictable = raw_get raw ''unevictable'',
        HierarchicalMemoryLimit = raw_get raw ''hierarchical_memory_limit'',
        HierarchicalSwapLimit = raw_get raw ''hierarchical_memsw_limit'',
        TotalCache = raw_get raw ''total_cache'',
        TotalRSS = raw_get raw ''total_rss'',
        TotalRSSHuge = raw_get raw ''total_rss_huge'',
        TotalMappedFile = raw_get raw ''total_mapped_file'',
        TotalDirty = raw_get raw ''total_dirty'',
        TotalWriteback = raw_get raw ''total_writeback'',
        TotalPgPgIn = raw_get raw ''total_pgpgin'',
        TotalPgPgOut = raw_get raw ''total_pgpgout'',
        TotalPgFault = raw_get raw ''total_pgfault'',
        TotalPgMajFault = raw_get raw ''total_pgmajfault'',
        TotalInactiveAnon = raw_get raw ''total_inactive_anon'',
        TotalActiveAnon = raw_get raw ''total_active_anon'',
        TotalInactiveFile = raw_get raw ''total_inactive_file'',
        TotalActiveFile = raw_get raw ''total_active_file'',
        TotalUnevictable = raw_get raw ''total_unevictable'',
        stat_Usage = zero_entry,
        stat_Swap = zero_entry,
        stat_Kernel = zero_entry,
        stat_KernelTCP = zero_entry \<rparr>"

text \<open>
  \<open>Stat(path, stats)\<close>: \<open>stats\<close> is a pointer (\<open>None\<close> when nil), written through once
  the counter file has been parsed; what it holds when \<open>Stat\<close> returns is part of the
  result.
\<close>

definition Stat ::
  "'w os \<Rightarrow> (string \<Rightarrow> error + string \<times> u64) \<Rightarrow> memoryController \<Rightarrow> string \<Rightarrow> Stats option
     \<Rightarrow> 'w st \<Rightarrow> (error option \<times> Stats option) outcome \<times> 'w st"
where
  "Stat sys pkv m path stats s =
     (case parseStats sys pkv m path s of
        (Inl err, s1) \<Rightarrow> (Return (Some err, stats), s1)
      | (Inr raw, s1) \<Rightarrow>
          (case stats of
             None \<Rightarrow> (Panic, s1)
           | Some st \<Rightarrow>
               (case read_modules sys m path usage_modules (named_stats raw) s1 of
                  ((err, ms), s2) \<Rightarrow> (Return (err, Some (st\<lparr> Stats_Memory := Some ms \<rparr>)), s2))))"

section \<open>The collector\<close>

text \<open>
  The registry \<open>cgroups map[string]cgroups.Cgroup\<close> is a list of bindings with one
  binding for a key; \<open>c.cgroups[id]\<close> is \<open>map_of\<close>, \<open>c.cgroups[id] = cg\<close> is
  \<open>AList.update\<close>. The order of the list is not the order of a \<open>range\<close> over the map,
  which Go leaves open. The lock \<open>mu\<close> is not a field here: \<open>Add\<close> runs under the
  write lock from its first statement to its return, as one step.
\<close>

record ('c, 'ns, 'm) Collector =
  cgroups :: "(string \<times> 'c) list"
  ns :: 'ns
  metrics :: "'m list"

definition Add ::
  "('c, 'ns, 'm) Collector \<Rightarrow> string \<Rightarrow> 'c \<Rightarrow> error option \<times> ('c, 'ns, 'm) Collector"
where
  "Add c ident cg =
     (case map_of (cgroups c) ident of
        Some old \<Rightarrow> (Some ErrAlreadyCollected, c)
      | None \<Rightarrow> (None, c\<lparr> cgroups := AList.update ident cg (cgroups c) \<rparr>))"

subsection \<open>Collect\<close>

text \<open>
  \<open>Collect\<close> starts one goroutine for each binding of the registry and waits for all
  of them. The goroutines and \<open>Collect\<close> itself run interleaved, in any order: a state
  holds where each of them is, the counter of the wait group, what has been sent on the
  channel and what has been logged, and a step is one move of one of them, chosen by the
  scheduler. A send on \<open>ch\<close> is one step: the receiver is taken to be ready.

  What \<open>Collect\<close> calls and is not part of the code at hand:
  \<^item> \<open>cg_Stat\<close>: \<open>cg.Stat()\<close> of the interface \<open>cgroups.Cgroup\<close>, an error or the
    statistics;
  \<^item> \<open>m_collect\<close>: \<open>m.collect(id, stats, c.ns, ch)\<close> of a metric, as the samples it
    sends on \<open>ch\<close>, in order.
\<close>

record ('c, 'stats, 'ns, 'm, 'sample) env =
  cg_Stat :: "'c \<Rightarrow> error + 'stats"
  m_collect :: "'m \<Rightarrow> string \<Rightarrow> 'stats \<Rightarrow> 'ns \<Rightarrow> 'sample list"

text \<open>
  A goroutine running \<open>c.collect(id, cg, ch, wg)\<close>: before \<open>cg.Stat()\<close>; sending the
  samples that are left, \<open>wg.Done()\<close> (deferred) still to run; or finished.
\<close>

datatype 'sample gstate = GStat | GSend "'sample list" | GDone

record ('c, 'sample) goroutine =
  g_id :: string
  g_cg :: 'c
  g_state :: "'sample gstate"

text \<open>
  Where \<open>Collect\<close> itself is: before \<open>c.mu.RLock()\<close>; in the \<open>range\<close> loop, with the
  bindings not yet visited; at \<open>wg.Wait()\<close>, after \<open>c.mu.RUnlock()\<close>; returned.
\<close>

datatype 'c mstate = MStart | MRange "(string \<times> 'c) list" | MWait | MReturned

record ('c, 'sample) cstate =
  main :: "'c mstate"
  wg :: int
  gos :: "('c, 'sample) goroutine list"
  ch :: "'sample list"
  logged :: "(error \<times> string) list"

definition init :: "('c, 'sample) cstate" where
  "init = \<lparr> main = MStart, wg = 0, gos = [], ch = [], logged = [] \<rparr>"

text \<open>
  The scheduler's choice: the next step of \<open>Collect\<close> (in the loop, with the binding the
  \<open>range\<close> yields next, by its position among those left), or the next step of a
  goroutine.
\<close>

datatype action = Main nat | Go nat

definition samples ::
  "('c, 'stats, 'ns, 'm, 'sample) env \<Rightarrow> ('c, 'ns, 'm) Collector \<Rightarrow> string \<Rightarrow> 'stats \<Rightarrow> 'sample list"
where
  "samples e c ident stats = concat (map (\<lambda>m. m_collect e m ident stats (ns c)) (metrics c))"

text \<open>
  One step of \<open>Collector.Collect\<close>: the read lock and the start of the \<open>range\<close>; one
  turn of the loop, \<open>wg.Add(1)\<close> and the \<open>go\<close> statement; the end of the loop and
  the unlock; \<open>wg.Wait()\<close>, which goes on only when the counter is zero.
\<close>

definition Collect_step ::
  "('c, 'ns, 'm) Collector \<Rightarrow> nat \<Rightarrow> ('c, 'sample) cstate \<Rightarrow> ('c, 'sample) cstate option"
where
  "Collect_step c k s =
     (case main s of
        MStart \<Rightarrow> Some (s\<lparr> main := MRange (cgroups c) \<rparr>)
      | MRange todo \<Rightarrow>
          (if todo = [] then Some (s\<lparr> main := MWait \<rparr>)
           else if k < length todo then
             Some (s\<lparr> main := MRange (take k todo @ drop (Suc k) todo),
                      wg := wg s + 1,
                      gos := gos s @ [\<lparr> g_id = fst (todo ! k), g_cg = snd (todo ! k), g_state = GStat \<rparr>] \<rparr>)
           else None)
      | MWait \<Rightarrow> (if wg s = 0 then Some (s\<lparr> main := MReturned \<rparr>) else None)
      | MReturned \<Rightarrow> None)"

text \<open>
  One step of a goroutine running \<open>Collector.collect\<close>: the call of \<open>cg.Stat()\<close>,
  with the log entry and the return when it fails and the samples of every metric of
  \<open>c.metrics\<close> to send when it succeeds; one send on \<open>ch\<close>; the deferred
  \<open>wg.Done()\<close>.
\<close>

definition collect_step ::
  "('c, 'stats, 'ns, 'm, 'sample) env \<Rightarrow> ('c, 'ns, 'm) Collector \<Rightarrow> nat \<Rightarrow> ('c, 'sample) cstate
     \<Rightarrow> ('c, 'sample) cstate option"
where
  "collect_step e c i s =
     (if i < length (gos s) then
        (let gr = gos s ! i in
         case g_state gr of
           GStat \<Rightarrow>
             (case cg_Stat e (g_cg gr) of
                Inl err \<Rightarrow>
                  Some (s\<lparr> logged := logged s @ [(err, g_id gr)],
                           gos := (gos s)[i := gr\<lparr> g_state := GSend [] \<rparr>] \<rparr>)
              | Inr stats \<Rightarrow>
                  Some (s\<lparr> gos := (gos s)[i := gr\<lparr> g_state := GSend (samples e c (g_id gr) stats) \<rparr>] \<rparr>))
         | GSend [] \<Rightarrow>
             Some (s\<lparr> wg := wg s - 1, gos := (gos s)[i := gr\<lparr> g_state := GDone \<rparr>] \<rparr>)
         | GSend (x # xs) \<Rightarrow>
             Some (s\<lparr> ch := ch s @ [x], gos := (gos s)[i := gr\<lparr> g_state := GSend xs \<rparr>] \<rparr>)
         | GDone \<Rightarrow> None)
      else None)"

definition step ::
  "('c, 'stats, 'ns, 'm, 'sample) env \<Rightarrow> ('c, 'ns, 'm) Collector \<Rightarrow> action \<Rightarrow> ('c, 'sample) cstate
     \<Rightarrow> ('c, 'sample) cstate option"
where
  "step e c a s = (case a of Main k \<Rightarrow> Collect_step c k s | Go i \<Rightarrow> collect_step e c i s)"

fun run ::
  "('c, 'stats, 'ns, 'm, 'sample) env \<Rightarrow> ('c, 'ns, 'm) Collector \<Rightarrow> action list \<Rightarrow> ('c, 'sample) cstate
     \<Rightarrow> ('c, 'sample) cstate option"
where
  "run e c [] s = Some s"
| "run e c (a # as) s = (case step e c a s of None \<Rightarrow> None | Some s' \<Rightarrow> run e c as s')"

section \<open>What the design document says, as definitions\<close>

text \<open>
  A plain path element: not empty, not \<open>.\<close>, not \<open>..\<close>, and without a separator.
\<close>

definition ordinary :: "string \<Rightarrow> bool" where
  "ordinary e = (e \<noteq> [] \<and> e \<noteq> ''.'' \<and> e \<noteq> ''..'' \<and> CHR ''/'' \<notin> set e)"

text \<open>
  The limit-settings list of the design document: one write for each knob that is
  provided, in the order memory limit, swap limit, kernel-memory limit, kernel-TCP-memory
  limit, OOM-killer-disable flag (1 when the flag is set, no write otherwise), swappiness.
\<close>

definition knob_file :: "memoryController \<Rightarrow> string \<Rightarrow> string \<Rightarrow> string" where
  "knob_file m path nm = Join [Path m path, ''memory.'' @ nm]"

definition knob_write :: "memoryController \<Rightarrow> string \<Rightarrow> string \<Rightarrow> u64 option \<Rightarrow> event list" where
  "knob_write m path nm v =
     (case v of None \<Rightarrow> [] | Some x \<Rightarrow> [EvWriteFile (knob_file m path nm) (FormatUint x)])"

definition knob_writes :: "memoryController \<Rightarrow> string \<Rightarrow> LinuxResources \<Rightarrow> LinuxMemory \<Rightarrow> event list" where
  "knob_writes m path r mem =
     knob_write m path ''limit_in_bytes'' (Limit mem) @
     knob_write m path ''memsw.limit_in_bytes'' (Swap mem) @
     knob_write m path ''kmem.limit_in_bytes'' (Kernel mem) @
     knob_write m path ''kmem.tcp.limit_in_bytes'' (KernelTCP mem) @
     (if DisableOOMKiller r = Some True
      then [EvWriteFile (knob_file m path ''oom_control'') ''1''] else []) @
     knob_write m path ''swappiness'' (Swappiness mem)"

text \<open>
  Making a list of writes in order: each write is made when all before it have succeeded,
  and the first failure ends the list and is the result.
\<close>

fun write_in_order :: "'w os \<Rightarrow> event list \<Rightarrow> 'w st \<Rightarrow> error option \<times> 'w st" where
  "write_in_order sys [] s = (None, s)"
| "write_in_order sys (EvWriteFile p d # evs) s =
     (case WriteFile sys p d s of
        (Some err, s') \<Rightarrow> (Some err, s')
      | (None, s') \<Rightarrow> write_in_order sys evs s')"
| "write_in_order sys (ev # evs) s = write_in_order sys evs s"

text \<open>A write that fails with the kernel's EBUSY: a path error around that error number.\<close>

fun is_EBUSY :: "error \<Rightarrow> bool" where
  "is_EBUSY (PathError op p (Errno n)) = (n = EBUSY)"
| "is_EBUSY err = False"

text \<open>The text of the error that \<open>checkEBUSY\<close> makes.\<close>

definition kmem_busy :: error where
  "kmem_busy = ErrorString ''failed to set memory.kmem.limit_in_bytes, because either tasks have already joined this cgroup or it has children''"

text \<open>
  The sixteen usage files: \<open>usage_in_bytes\<close>, \<open>max_usage_in_bytes\<close>, \<open>failcnt\<close> and
  \<open>limit_in_bytes\<close> for each of the four classes.
\<close>

definition usage_files :: "string list" where
  "usage_files =
     [''memory.usage_in_bytes'', ''memory.max_usage_in_bytes'',
      ''memory.failcnt'', ''memory.limit_in_bytes'',
      ''memory.memsw.usage_in_bytes'', ''memory.memsw.max_usage_in_bytes'',
      ''memory.memsw.failcnt'', ''memory.memsw.limit_in_bytes'',
      ''memory.kmem.usage_in_bytes'', ''memory.kmem.max_usage_in_bytes'',
      ''memory.kmem.failcnt'', ''memory.kmem.limit_in_bytes'',
      ''memory.kmem.tcp.usage_in_bytes'', ''memory.kmem.tcp.max_usage_in_bytes'',
      ''memory.kmem.tcp.failcnt'', ''memory.kmem.tcp.limit_in_bytes'']"

text \<open>The named fields of the snapshot, each with its key of \<open>memory.stat\<close>.\<close>

definition named_fields :: "(string \<times> (MemoryStat \<Rightarrow> u64)) list" where
  "named_fields =
     [(''cache'', Cache), (''rss'', RSS), (''rss_huge'', RSSHuge),
      (''mapped_file'', MappedFile), (''dirty'', Dirty), (''writeback'', Writeback),
      (''pgpgin'', PgPgIn), (''pgpgout'', PgPgOut), (''pgfault'', PgFault),
      (''pgmajfault'', PgMajFault), (''inactive_anon'', InactiveAnon),
      (''active_anon'', ActiveAnon), (''inactive_file'', InactiveFile),
      (''active_file'', ActiveFile), (''unevictable'', Unevictable),
      (''hierarchical_memory_limit'', HierarchicalMemoryLimit),
      (''hierarchical_memsw_limit'', HierarchicalSwapLimit),
      (''total_cache'', TotalCache), (''total_rss'', TotalRSS),
      (''total_rss_huge'', TotalRSSHuge), (''total_mapped_file'', TotalMappedFile),
      (''total_dirty'', TotalDirty), (''total_writeback'', TotalWriteback),
      (''total_pgpgin'', TotalPgPgIn), (''total_pgpgout'', TotalPgPgOut),
      (''total_pgfault'', TotalPgFault), (''total_pgmajfault'', TotalPgMajFault),
      (''total_inactive_anon'', TotalInactiveAnon), (''total_active_anon'', TotalActiveAnon),
      (''total_inactive_file'', TotalInactiveFile), (''total_active_file'', TotalActiveFile),
      (''total_unevictable'', TotalUnevictable)]"

text \<open>A line of \<open>memory.stat\<close> that gives a value to the key.\<close>

definition has_key :: "(string \<Rightarrow> error + string \<times> u64) \<Rightarrow> string \<Rightarrow> string \<times> error option \<Rightarrow> bool" where
  "has_key pkv k sc = (case pkv (fst sc) of Inl err \<Rightarrow> False | Inr (key, v) \<Rightarrow> key = k)"

text \<open>A call of \<open>Scan()\<close> that makes \<open>parseStats\<close> fail: by the scanner's error, or by its line.\<close>

definition read_error :: "string \<times> error option \<Rightarrow> bool" where
  "read_error sc = (snd sc \<noteq> None)"

definition malformed :: "(string \<Rightarrow> error + string \<times> u64) \<Rightarrow> string \<times> error option \<Rightarrow> bool" where
  "malformed pkv sc = isl (pkv (fst sc))"

text \<open>
  Modelled from the spec: \<open>parseKV\<close>, the line parser of package cgroups, is not part of
  the code at hand. The design document has the counter files as lines \<open>key value\<close>,
  separated by a space, the value an unsigned integer, and an unparseable line as a parse
  error. It stands for \<open>pkv\<close> in the examples only; the text of its errors is not given
  by the document.
\<close>

fun fields :: "string \<Rightarrow> string list" where
  "fields [] = [[]]"
| "fields (c # cs) =
     (if c = CHR '' '' then [] # fields cs
      else (case fields cs of [] \<Rightarrow> [[c]] | e # es \<Rightarrow> (c # e) # es))"

fun index_of :: "'a \<Rightarrow> 'a list \<Rightarrow> nat option" where
  "index_of x [] = None"
| "index_of x (y # ys) = (if x = y then Some 0 else map_option Suc (index_of x ys))"

fun parse_decimal :: "string \<Rightarrow> nat \<Rightarrow> nat option" where
  "parse_decimal [] acc = Some acc"
| "parse_decimal (c # cs) acc =
     (case index_of c ''0123456789'' of
        None \<Rightarrow> None
      | Some d \<Rightarrow> parse_decimal cs (acc * 10 + d))"

definition parseKV :: "string \<Rightarrow> error + string \<times> u64" where
  "parseKV raw =
     (case fields raw of
        [k, v] \<Rightarrow>
          (if k = [] \<or> v = [] then Inl (ErrorString ''invalid format'')
           else
             (case parse_decimal v 0 of
                None \<Rightarrow> Inl (ErrorString ''invalid syntax'')
              | Some n \<Rightarrow>
                  (if n < 2 ^ 64 then Inr (k, of_nat n)
                   else Inl (ErrorString ''value out of range''))))
      | _ \<Rightarrow> Inl (ErrorString ''invalid format''))"

section \<open>The states a run of Collect reaches\<close>

text \<open>
  What one tracked cgroup adds to a scrape: every sample of every metric descriptor when
  its \<open>Stat\<close> succeeds, nothing when it fails; and what it adds to the log: one entry
  when its \<open>Stat\<close> fails.
\<close>

definition contribution ::
  "('c, 'stats, 'ns, 'm, 'sample) env \<Rightarrow> ('c, 'ns, 'm) Collector \<Rightarrow> string \<times> 'c \<Rightarrow> 'sample multiset"
where
  "contribution e c b =
     (case cg_Stat e (snd b) of
        Inl err \<Rightarrow> {#}
      | Inr stats \<Rightarrow> mset (samples e c (fst b) stats))"

definition complaint ::
  "('c, 'stats, 'ns, 'm, 'sample) env \<Rightarrow> string \<times> 'c \<Rightarrow> (error \<times> string) multiset"
where
  "complaint e b =
     (case cg_Stat e (snd b) of
        Inl err \<Rightarrow> {#(err, fst b)#}
      | Inr stats \<Rightarrow> {#})"

text \<open>The binding a goroutine works on, and whether the goroutine is still running.\<close>

definition binding :: "('c, 'sample) goroutine \<Rightarrow> string \<times> 'c" where
  "binding gr = (g_id gr, g_cg gr)"

definition live :: "('c, 'sample) goroutine \<Rightarrow> bool" where
  "live gr = (g_state gr \<noteq> GDone)"

text \<open>What a goroutine has still to send and to log.\<close>

definition pending ::
  "('c, 'stats, 'ns, 'm, 'sample) env \<Rightarrow> ('c, 'ns, 'm) Collector \<Rightarrow> ('c, 'sample) goroutine
     \<Rightarrow> 'sample multiset"
where
  "pending e c gr =
     (case g_state gr of
        GStat \<Rightarrow> contribution e c (binding gr)
      | GSend xs \<Rightarrow> mset xs
      | GDone \<Rightarrow> {#})"

definition pending_log ::
  "('c, 'stats, 'ns, 'm, 'sample) env \<Rightarrow> ('c, 'sample) goroutine \<Rightarrow> (error \<times> string) multiset"
where
  "pending_log e gr =
     (case g_state gr of
        GStat \<Rightarrow> complaint e (binding gr)
      | GSend xs \<Rightarrow> {#}
      | GDone \<Rightarrow> {#})"

text \<open>The bindings \<open>Collect\<close> has still to start a goroutine for.\<close>

definition todo_of :: "('c, 'ns, 'm) Collector \<Rightarrow> ('c, 'sample) cstate \<Rightarrow> (string \<times> 'c) list" where
  "todo_of c s =
     (case main s of
        MStart \<Rightarrow> cgroups c
      | MRange todo \<Rightarrow> todo
      | MWait \<Rightarrow> []
      | MReturned \<Rightarrow> [])"

text \<open>
  What holds of every state a run of \<open>Collect\<close> reaches: every binding is still to be
  visited or has its goroutine; the wait group counts the goroutines still running; what
  has been sent and logged, with what is still to be, is what the goroutines' cgroups
  give; and \<open>Collect\<close> has returned only with the wait group at zero.
\<close>

definition inv ::
  "('c, 'stats, 'ns, 'm, 'sample) env \<Rightarrow> ('c, 'ns, 'm) Collector \<Rightarrow> ('c, 'sample) cstate \<Rightarrow> bool"
where
  "inv e c s =
     (mset (todo_of c s) + mset (map binding (gos s)) = mset (cgroups c) \<and>
      wg s = int (length (filter live (gos s))) \<and>
      mset (ch s) + sum_list (map (pending e c) (gos s)) =
        sum_list (map (\<lambda>gr. contribution e c (binding gr)) (gos s)) \<and>
      mset (logged s) + sum_list (map (pending_log e) (gos s)) =
        sum_list (map (\<lambda>gr. complaint e (binding gr)) (gos s)) \<and>
      (main s = MReturned \<longrightarrow> wg s = 0))"

text \<open>
  The steps a goroutine has still to take, and the steps a run has still to take: a
  bound on the length of every run.
\<close>

definition work_of ::
  "('c, 'stats, 'ns, 'm, 'sample) env \<Rightarrow> ('c, 'ns, 'm) Collector \<Rightarrow> string \<times> 'c \<Rightarrow> nat"
where
  "work_of e c b =
     (case cg_Stat e (snd b) of
        Inl err \<Rightarrow> 2
      | Inr stats \<Rightarrow> 2 + length (samples e c (fst b) stats))"

definition left_of ::
  "('c, 'stats, 'ns, 'm, 'sample) env \<Rightarrow> ('c, 'ns, 'm) Collector \<Rightarrow> ('c, 'sample) goroutine \<Rightarrow> nat"
where
  "left_of e c gr =
     (case g_state gr of
        GStat \<Rightarrow> work_of e c (binding gr)
      | GSend xs \<Rightarrow> 1 + length xs
      | GDone \<Rightarrow> 0)"

definition steps_left ::
  "('c, 'stats, 'ns, 'm, 'sample) env \<Rightarrow> ('c, 'ns, 'm) Collector \<Rightarrow> ('c, 'sample) cstate \<Rightarrow> nat"
where
  "steps_left e c s =
     (case main s of MStart \<Rightarrow> 3 | MRange todo \<Rightarrow> 2 | MWait \<Rightarrow> 1 | MReturned \<Rightarrow> 0) +
     sum_list (map (\<lambda>b. 1 + work_of e c b) (todo_of c s)) +
     sum_list (map (left_of e c) (gos s))"

section \<open>A system for the examples\<close>

text \<open>
  A system where every call succeeds: \<open>memory.limit_in_bytes\<close> and the other numeric
  files read as 50, \<open>memory.stat\<close> holds two lines, and descriptors are handed out in
  order (the world is the next free one).
\<close>

definition demo_os :: "nat os" where
  "demo_os =
     \<lparr> os_MkdirAll = (\<lambda>p w. (None, w)),
       os_WriteFile = (\<lambda>p d w. (None, w)),
       os_readUint = (\<lambda>p w. Inr 50),
       os_Scan = (\<lambda>p w. Inr [(''cache 1024'', None), (''rss 2048'', None)]),
       os_Open = (\<lambda>p w. (Inr w, Suc w)),
       os_OpenFile = (\<lambda>p w. (Inr w, Suc w)),
       os_eventfd2 = (\<lambda>w. ((w, 0), Suc w)),
       os_WriteString = (\<lambda>f d w. (None, w)),
       os_Close = (\<lambda>f w. w) \<rparr>"

definition demo_start :: "nat st" where
  "demo_start = \<lparr> world = 3, trace = [] \<rparr>"

definition demo_memory :: memoryController where
  "demo_memory = NewMemory ''/sys/fs/cgroup''"

definition no_memory :: LinuxMemory where
  "no_memory =
     \<lparr> Limit = None, Reservation = None, Swap = None, Kernel = None, KernelTCP = None,
       Swappiness = None \<rparr>"

definition demo_limits :: LinuxResources where
  "demo_limits =
     \<lparr> Memory = Some (no_memory\<lparr> Limit := Some 0, Swappiness := Some 60 \<rparr>),
       DisableOOMKiller = Some False \<rparr>"


text \<open>A system where the kernel refuses the write of -1 with EBUSY.\<close>

definition busy_os :: "nat os" where
  "busy_os =
     demo_os\<lparr> os_WriteFile :=
       (\<lambda>p d w. (if d = ''-1'' then Some (PathError ''write'' p (Errno EBUSY)) else None, w)) \<rparr>"

definition kernel_limit :: LinuxResources where
  "kernel_limit =
     \<lparr> Memory = Some (no_memory\<lparr> Kernel := Some 4096 \<rparr>), DisableOOMKiller = None \<rparr>"

text \<open>A memory limit provided as zero with a swap limit of 100.\<close>

definition zero_limit :: LinuxResources where
  "zero_limit =
     \<lparr> Memory = Some (no_memory\<lparr> Limit := Some 0, Swap := Some 100 \<rparr>),
       DisableOOMKiller = None \<rparr>"

text \<open>A memory limit of 80 with a swap limit of 100.\<close>

definition both_limits :: LinuxResources where
  "both_limits =
     \<lparr> Memory = Some (no_memory\<lparr> Limit := Some 80, Swap := Some 100 \<rparr>),
       DisableOOMKiller = None \<rparr>"

text \<open>A system where the write to \<open>cgroup.event_control\<close> fails.\<close>

definition deaf_os :: "nat os" where
  "deaf_os =
     demo_os\<lparr> os_WriteString := (\<lambda>f d w. (Some (PathError ''write'' ''cgroup.event_control'' (Errno 22)), w)) \<rparr>"

text \<open>
  A system where the scanner of \<open>memory.stat\<close> gives one well-formed line together with
  a read error.
\<close>

definition broken_os :: "nat os" where
  "broken_os =
     demo_os\<lparr> os_Scan := (\<lambda>p w. Inr [(''cache 1024'', Some (PathError ''read'' p (Errno 5)))]) \<rparr>"

definition no_stats :: Stats where
  "no_stats = \<lparr> Stats_Memory = None \<rparr>"

text \<open>The snapshot of the example system: two counters, and 50 in every usage file.\<close>

definition demo_entry :: MemoryEntry where
  "demo_entry = \<lparr> entry_Limit = 50, entry_Usage = 50, entry_Max = 50, entry_Failcnt = 50 \<rparr>"

definition demo_stats :: MemoryStat where
  "demo_stats =
     (named_stats [''cache'' \<mapsto> 1024, ''rss'' \<mapsto> 2048])
       \<lparr> stat_Usage := demo_entry, stat_Swap := demo_entry,
         stat_Kernel := demo_entry, stat_KernelTCP := demo_entry \<rparr>"

text \<open>
  An example: two metric descriptors, a cgroup whose \<open>Stat\<close> succeeds and one whose
  \<open>Stat\<close> fails, registered by \<open>Add\<close>; a sample is the metric, the identifier and the
  value.
\<close>

definition demo_env :: "(string, nat, unit, string, string \<times> string \<times> nat) env" where
  "demo_env =
     \<lparr> cg_Stat = (\<lambda>cg. if cg = ''gone'' then Inl (ErrorString ''no such file or directory'') else Inr 7),
       m_collect = (\<lambda>m ident stats n. [(m, ident, stats)]) \<rparr>"

definition demo_collector :: "(string, unit, string) Collector" where
  "demo_collector =
     snd (Add (snd (Add \<lparr> cgroups = [], ns = (), metrics = [''cpu'', ''memory''] \<rparr> ''a'' ''here''))
            ''b'' ''gone'')"

definition demo_schedule :: "action list" where
  "demo_schedule =
     [Main 0, Main 1, Main 0, Main 0, Go 0, Go 1, Go 1, Go 0, Go 1, Go 1, Main 0]"

text \<open>
  A system where \<open>memory.limit_in_bytes\<close> cannot be written, and resources that provide
  four knobs.
\<close>

definition stuck_os :: "nat os" where
  "stuck_os =
     demo_os\<lparr> os_WriteFile :=
       (\<lambda>p d w. (if p = ''/sys/fs/cgroup/memory/g/memory.limit_in_bytes''
                   then Some (PathError ''write'' p (Errno 22)) else None, w)) \<rparr>"

definition four_limits :: LinuxResources where
  "four_limits =
     \<lparr> Memory = Some (no_memory\<lparr> Limit := Some 80, Swap := Some 100, Kernel := Some 4096,
                                  Swappiness := Some 60 \<rparr>),
       DisableOOMKiller = None \<rparr>"

section \<open>Properties\<close>

subsection \<open>Paths\<close>

lemma elements_not_Nil: "elements x \<noteq> []"
  by (induction x) (auto split: list.splits)

lemma elements_append: "elements (x @ CHR ''/'' # y) = elements x @ elements y"
  by (induction x) (auto split: list.splits simp: elements_not_Nil)

lemma elements_single: "CHR ''/'' \<notin> set e \<Longrightarrow> elements e = [e]"
  by (induction e) (auto split: list.splits)

lemma elements_Join:
  "es \<noteq> [] \<Longrightarrow> \<forall>e\<in>set es. CHR ''/'' \<notin> set e \<Longrightarrow> elements (strings_Join es ''/'') = es"
proof (induction es "''/''" rule: strings_Join.induct)
  case 1
  then show ?case by simp
next
  case (2 x)
  then show ?case by (simp add: elements_single)
next
  case (3 x y ys)
  then show ?case by (simp add: elements_append elements_single)
qed

lemma foldl_clean_ordinary:
  "\<forall>e\<in>set es. ordinary e \<Longrightarrow> foldl (clean_step b) acc es = acc @ es"
  by (induction es arbitrary: acc) (auto simp: clean_step_def ordinary_def)

lemma strings_Join_snoc:
  "strings_Join (es @ [e]) sep = (if es = [] then e else strings_Join es sep @ sep @ e)"
  by (induction es sep rule: strings_Join.induct) auto

lemma strings_Join_append:
  "es \<noteq> [] \<Longrightarrow> ps \<noteq> [] \<Longrightarrow> strings_Join (es @ ps) sep = strings_Join es sep @ sep @ strings_Join ps sep"
  by (induction es sep rule: strings_Join.induct) (auto split: list.splits, (cases ps; simp)+)

lemma strings_Join_not_Nil:
  "ps \<noteq> [] \<Longrightarrow> \<forall>e\<in>set ps. e \<noteq> [] \<Longrightarrow> strings_Join ps sep \<noteq> []"
  by (induction ps sep rule: strings_Join.induct) auto

lemma Clean_rooted:
  assumes "\<forall>e\<in>set es. ordinary e"
  shows "Clean (CHR ''/'' # strings_Join es ''/'') = CHR ''/'' # strings_Join es ''/''"
proof (cases "es = []")
  case True
  then show ?thesis by (simp add: Clean_def clean_step_def)
next
  case False
  with assms have "elements (strings_Join es ''/'') = es"
    by (intro elements_Join) (auto simp: ordinary_def)
  with assms show ?thesis
    by (simp add: Clean_def foldl_clean_ordinary clean_step_def)
qed

lemma Path_plain:
  assumes "es \<noteq> []" "\<forall>e\<in>set es. ordinary e" "ps \<noteq> []" "\<forall>e\<in>set ps. ordinary e"
  shows "Path (NewMemory (CHR ''/'' # strings_Join es ''/'')) (strings_Join ps ''/'')
         = CHR ''/'' # strings_Join es ''/'' @ ''/memory/'' @ strings_Join ps ''/''"
proof -
  have m: "ordinary ''memory''" by (simp add: ordinary_def)
  have sjne: "strings_Join ps ''/'' \<noteq> []" using assms(3,4)
    by (intro strings_Join_not_Nil) (auto simp: ordinary_def)
  have r: "root (NewMemory (CHR ''/'' # strings_Join es ''/'')) = CHR ''/'' # strings_Join (es @ [''memory'']) ''/''"
    using Clean_rooted[of "es @ [''memory'']"] assms m
    by (simp add: NewMemory_def Join_def Memory_Name_def strings_Join_snoc)
  have "Path (NewMemory (CHR ''/'' # strings_Join es ''/'')) (strings_Join ps ''/'')
        = Clean (CHR ''/'' # strings_Join ((es @ [''memory'']) @ ps) ''/'')"
    using assms(3) by (simp add: Path_def Join_def r strings_Join_append del: append_assoc)
  also have "\<dots> = CHR ''/'' # strings_Join ((es @ [''memory'']) @ ps) ''/''"
    using assms m by (intro Clean_rooted) auto
  finally show ?thesis using assms(1,3)
    by (simp add: strings_Join_append strings_Join_snoc del: append_assoc)
qed

subsection \<open>Writing the settings\<close>

lemma set_mem_trace:
  "set_mem sys m path ts s = (res, s') \<Longrightarrow>
     \<exists>new. trace s' = trace s @ new \<and>
       prefix new (concat (map (\<lambda>t. knob_write m path (name t) (val t)) ts)) \<and>
       (res = None \<longrightarrow> new = concat (map (\<lambda>t. knob_write m path (name t) (val t)) ts))"
proof (induction ts arbitrary: s)
  case Nil
  then show ?case by simp
next
  case (Cons t ts)
  show ?case
  proof (cases "val t")
    case None
    with Cons show ?thesis by (simp add: knob_write_def)
  next
    case (Some v)
    obtain r1 s1 where w: "WriteFile sys (Join [Path m path, ''memory.'' @ name t]) (FormatUint v) s = (r1, s1)"
      by (cases "WriteFile sys (Join [Path m path, ''memory.'' @ name t]) (FormatUint v) s")
    then have t1: "trace s1 = trace s @ [EvWriteFile (knob_file m path (name t)) (FormatUint v)]"
      by (auto simp: WriteFile_def knob_file_def split: prod.splits)
    show ?thesis
    proof (cases r1)
      case None
      with Cons.prems Some w have "set_mem sys m path ts s1 = (res, s')" by simp
      from Cons.IH[OF this] obtain new where
        n: "trace s' = trace s1 @ new"
           "prefix new (concat (map (\<lambda>t. knob_write m path (name t) (val t)) ts))"
           "res = None \<longrightarrow> new = concat (map (\<lambda>t. knob_write m path (name t) (val t)) ts)"
        by blast
      then show ?thesis using t1 Some
        by (intro exI[of _ "EvWriteFile (knob_file m path (name t)) (FormatUint v) # new"])
           (simp add: knob_write_def)
    next
      case (Some err)
      with Cons.prems \<open>val t = Some v\<close> w have "res = Some err" "s' = s1" by simp_all
      then show ?thesis using t1 \<open>val t = Some v\<close>
        by (intro exI[of _ "[EvWriteFile (knob_file m path (name t)) (FormatUint v)]"])
           (simp add: knob_write_def)
    qed
  qed
qed

lemma FormatUint_1: "FormatUint 1 = ''1''"
  by (simp add: FormatUint_def decimal.simps digit_def)

lemma FormatUint_0: "FormatUint 0 = ''0''"
  by (simp add: FormatUint_def decimal.simps digit_def)

lemma case_option_id: "(case x of None \<Rightarrow> None | Some v \<Rightarrow> Some v) = x"
  by (cases x) simp_all

lemma oom_write:
  "knob_write m path ''oom_control'' (getOomControlValue r) =
     (if DisableOOMKiller r = Some True
      then [EvWriteFile (knob_file m path ''oom_control'') ''1''] else [])"
  by (cases "DisableOOMKiller r")
     (simp_all add: getOomControlValue_def knob_write_def FormatUint_1 split: bool.splits)

lemma settings_writes:
  assumes "Memory r = Some mem" "getMemorySettings r = Return settings"
  shows "concat (map (\<lambda>t. knob_write m path (name t) (val t)) settings) = knob_writes m path r mem"
proof -
  from assms have "settings =
     [\<lparr> name = ''limit_in_bytes'', val = Limit mem \<rparr>,
      \<lparr> name = ''memsw.limit_in_bytes'', val = Swap mem \<rparr>,
      \<lparr> name = ''kmem.limit_in_bytes'', val = Kernel mem \<rparr>,
      \<lparr> name = ''kmem.tcp.limit_in_bytes'', val = KernelTCP mem \<rparr>,
      \<lparr> name = ''oom_control'', val = getOomControlValue r \<rparr>,
      \<lparr> name = ''swappiness'', val = Swappiness mem \<rparr>]"
    by (simp add: getMemorySettings_def case_option_id)
  then show ?thesis
    by (simp add: knob_writes_def oom_write)
qed

lemma hd_not_sep: "e \<noteq> [] \<Longrightarrow> CHR ''/'' \<notin> set e \<Longrightarrow> hd e \<noteq> CHR ''/''"
  by (cases e) auto

lemma Clean_ordinary: "ordinary e \<Longrightarrow> Clean e = e"
  by (simp add: Clean_def ordinary_def elements_single clean_step_def hd_not_sep)

lemma Join_last:
  "\<exists>pre. \<forall>e. ordinary e \<longrightarrow> Join [P, e] = pre @ e"
proof (cases "P = []")
  case True
  then show ?thesis
    by (intro exI[of _ "[]"]) (simp add: Join_def Clean_ordinary)
next
  case False
  define b where "b = (hd P = CHR ''/'')"
  define out where "out = foldl (clean_step b) [] (elements P)"
  define pre where
    "pre = (if b then ''/'' else []) @ (if out = [] then [] else strings_Join out ''/'' @ ''/'')"
  have "Join [P, e] = pre @ e" if "ordinary e" for e
  proof -
    have el: "elements (P @ CHR ''/'' # e) = elements P @ [e]"
      using that by (simp add: elements_append elements_single ordinary_def)
    have st: "clean_step b out e = out @ [e]"
      using that by (auto simp: clean_step_def ordinary_def)
    have "Join [P, e] = Clean (P @ CHR ''/'' # e)"
      using False by (simp add: Join_def)
    also have "\<dots> = (if b then CHR ''/'' # strings_Join (out @ [e]) ''/''
                      else strings_Join (out @ [e]) ''/'')"
      using False by (simp add: Clean_def el b_def[symmetric] out_def[symmetric] st)
    also have "\<dots> = pre @ e"
      by (simp add: pre_def strings_Join_snoc)
    finally show ?thesis .
  qed
  then show ?thesis by blast
qed

lemma knob_file_inj:
  assumes "ordinary (''memory.'' @ a)" "ordinary (''memory.'' @ b)"
    "knob_file m path a = knob_file m path b"
  shows "a = b"
proof -
  obtain pre where "\<forall>e. ordinary e \<longrightarrow> Join [Path m path, e] = pre @ e"
    using Join_last by blast
  with assms have "pre @ ''memory.'' @ a = pre @ ''memory.'' @ b"
    by (simp add: knob_file_def)
  then show ?thesis by simp
qed

lemma knob_write_set:
  "ev \<in> set (knob_write m path nm v) \<Longrightarrow> \<exists>x. ev = EvWriteFile (knob_file m path nm) x"
  by (auto simp: knob_write_def split: option.splits)

lemma oom_only_1:
  assumes "EvWriteFile (knob_file m path ''oom_control'') d \<in> set (knob_writes m path r mem)"
  shows "d = ''1'' \<and> DisableOOMKiller r = Some True"
proof -
  have neq: "knob_file m path nm \<noteq> knob_file m path ''oom_control''"
    if "nm \<in> {''limit_in_bytes'', ''memsw.limit_in_bytes'', ''kmem.limit_in_bytes'', ''kmem.tcp.limit_in_bytes'', ''swappiness''}" for nm
  proof
    assume "knob_file m path nm = knob_file m path ''oom_control''"
    moreover have "ordinary (''memory.'' @ nm)" "ordinary (''memory.'' @ ''oom_control'')"
      using that by (auto simp: ordinary_def)
    ultimately have "nm = ''oom_control''" by (rule knob_file_inj[rotated 2])
    with that show False by auto
  qed
  from assms show ?thesis
    unfolding knob_writes_def set_append Un_iff
    by (auto dest!: knob_write_set simp: neq neq[THEN not_sym] split: if_splits)
qed


lemma WriteFile_trace:
  "WriteFile sys p d s = (r, s') \<Longrightarrow> trace s' = trace s @ [EvWriteFile p d]"
  by (auto simp: WriteFile_def split: prod.splits)

lemma MkdirAll_trace:
  "MkdirAll sys p s = (r, s') \<Longrightarrow> trace s' = trace s @ [EvMkdirAll p]"
  by (auto simp: MkdirAll_def split: prod.splits)

subsection \<open>Examples of paths and numbers\<close>

lemma demo_Path: "Path demo_memory ''g'' = ''/sys/fs/cgroup/memory/g''"
  by (simp add: demo_memory_def Path_def NewMemory_def Join_def Clean_def clean_step_def Memory_Name_def)

lemma FormatUint_60: "FormatUint 60 = ''60''"
  by (simp add: FormatUint_def decimal.simps digit_def)

lemma set_mem_in_order:
  "set_mem sys m path ts s =
     write_in_order sys (concat (map (\<lambda>t. knob_write m path (name t) (val t)) ts)) s"
proof (induction ts arbitrary: s)
  case Nil
  then show ?case by simp
next
  case (Cons t ts)
  show ?case
  proof (cases "val t")
    case None
    with Cons show ?thesis by (simp add: knob_write_def)
  next
    case (Some v)
    with Cons show ?thesis
      by (simp add: knob_write_def knob_file_def split: prod.splits option.splits)
  qed
qed

lemma set_mem_error_writes:
  "set_mem sys m path ts s = (Some err, s') \<Longrightarrow> length (trace s) < length (trace s')"
proof (induction ts arbitrary: s)
  case Nil
  then show ?case by simp
next
  case (Cons t ts)
  show ?case
  proof (cases "val t")
    case None
    with Cons show ?thesis by simp
  next
    case (Some v)
    obtain r1 s1 where w: "WriteFile sys (Join [Path m path, ''memory.'' @ name t]) (FormatUint v) s = (r1, s1)"
      by (cases "WriteFile sys (Join [Path m path, ''memory.'' @ name t]) (FormatUint v) s")
    from WriteFile_trace[OF w] have l: "length (trace s1) = Suc (length (trace s))" by simp
    show ?thesis
    proof (cases r1)
      case None
      with Cons.prems Some w have "set_mem sys m path ts s1 = (Some err, s')" by simp
      from Cons.IH[OF this] l show ?thesis by simp
    next
      case (Some e)
      with Cons.prems \<open>val t = Some v\<close> w have "s' = s1" by simp
      with l show ?thesis by simp
    qed
  qed
qed

subsection \<open>C6: the settings that are written\<close>

text \<open>
  C6, as the code has it. Applying the limit-settings list of a resources record makes
  the writes of the provided knobs, in the order of the list, each one when all before it
  have succeeded: \<open>set\<close> returns at the first write that fails, with its error, and the
  knobs after it are not written. So the calls made are a beginning of the list of the
  provided knobs' writes, all of it when \<open>set\<close> returns no error and at least one write
  when it returns an error, and no file of a knob that is not provided is ever written.
  A knob provided as zero is written as the text \<open>0\<close>, and \<open>memory.oom_control\<close> is
  written only with the text \<open>1\<close> and only when the disable flag is provided and true.
\<close>

theorem set_writes_provided_knobs:
  assumes "Memory r = Some mem" "getMemorySettings r = Return settings"
    and "set_mem sys m path settings s = (res, s')"
  shows "set_mem sys m path settings s = write_in_order sys (knob_writes m path r mem) s \<and>
         (\<exists>new. trace s' = trace s @ new \<and>
           prefix new (knob_writes m path r mem) \<and>
           (res = None \<longrightarrow> new = knob_writes m path r mem) \<and>
           (res \<noteq> None \<longrightarrow> new \<noteq> []) \<and>
           (\<forall>d. EvWriteFile (knob_file m path ''oom_control'') d \<in> set new \<longrightarrow>
                d = ''1'' \<and> DisableOOMKiller r = Some True)) \<and>
         knob_write m path nm None = [] \<and>
         knob_write m path nm (Some 0) = [EvWriteFile (knob_file m path nm) ''0'']"
proof -
  have eq: "set_mem sys m path settings s = write_in_order sys (knob_writes m path r mem) s"
    using set_mem_in_order[of sys m path settings s] settings_writes[OF assms(1,2)] by simp
  from set_mem_trace[OF assms(3)] settings_writes[OF assms(1,2)]
  obtain new where n: "trace s' = trace s @ new" "prefix new (knob_writes m path r mem)"
    "res = None \<longrightarrow> new = knob_writes m path r mem"
    by auto
  have ne: "new \<noteq> []" if "res \<noteq> None"
  proof -
    from that obtain err where "res = Some err" by auto
    with assms(3) have "length (trace s) < length (trace s')"
      by (auto dest: set_mem_error_writes)
    with n(1) show ?thesis by auto
  qed
  have "d = ''1'' \<and> DisableOOMKiller r = Some True"
    if "EvWriteFile (knob_file m path ''oom_control'') d \<in> set new" for d
    using that n(2) oom_only_1[of m path d r mem] set_mono_prefix by blast
  with n ne eq show ?thesis
    by (intro conjI exI[of _ new]) (simp_all add: knob_write_def FormatUint_0)
qed

theorem set_writes_provided_knobs_witness:
  "Memory demo_limits = Some (no_memory\<lparr> Limit := Some 0, Swappiness := Some 60 \<rparr>) \<and>
   getMemorySettings demo_limits = Return
     [\<lparr> name = ''limit_in_bytes'', val = Some 0 \<rparr>,
      \<lparr> name = ''memsw.limit_in_bytes'', val = None \<rparr>,
      \<lparr> name = ''kmem.limit_in_bytes'', val = None \<rparr>,
      \<lparr> name = ''kmem.tcp.limit_in_bytes'', val = None \<rparr>,
      \<lparr> name = ''oom_control'', val = None \<rparr>,
      \<lparr> name = ''swappiness'', val = Some 60 \<rparr>] \<and>
   set_mem demo_os demo_memory ''g''
     [\<lparr> name = ''limit_in_bytes'', val = Some 0 \<rparr>,
      \<lparr> name = ''memsw.limit_in_bytes'', val = None \<rparr>,
      \<lparr> name = ''kmem.limit_in_bytes'', val = None \<rparr>,
      \<lparr> name = ''kmem.tcp.limit_in_bytes'', val = None \<rparr>,
      \<lparr> name = ''oom_control'', val = None \<rparr>,
      \<lparr> name = ''swappiness'', val = Some 60 \<rparr>] demo_start =
     (None, \<lparr> world = 3, trace =
        [EvWriteFile ''/sys/fs/cgroup/memory/g/memory.limit_in_bytes'' ''0'',
         EvWriteFile ''/sys/fs/cgroup/memory/g/memory.swappiness'' ''60''] \<rparr>) \<and>
   knob_writes demo_memory ''g'' demo_limits (no_memory\<lparr> Limit := Some 0, Swappiness := Some 60 \<rparr>) =
     [EvWriteFile ''/sys/fs/cgroup/memory/g/memory.limit_in_bytes'' ''0'',
      EvWriteFile ''/sys/fs/cgroup/memory/g/memory.swappiness'' ''60''] \<and>
   write_in_order demo_os
     [EvWriteFile ''/sys/fs/cgroup/memory/g/memory.limit_in_bytes'' ''0'',
      EvWriteFile ''/sys/fs/cgroup/memory/g/memory.swappiness'' ''60''] demo_start =
     (None, \<lparr> world = 3, trace =
        [EvWriteFile ''/sys/fs/cgroup/memory/g/memory.limit_in_bytes'' ''0'',
         EvWriteFile ''/sys/fs/cgroup/memory/g/memory.swappiness'' ''60''] \<rparr>)"
proof -
  let ?mem = "no_memory\<lparr> Limit := Some 0, Swappiness := Some 60 \<rparr>"
  let ?settings = "[\<lparr> name = ''limit_in_bytes'', val = Some 0 \<rparr>,
      \<lparr> name = ''memsw.limit_in_bytes'', val = None \<rparr>,
      \<lparr> name = ''kmem.limit_in_bytes'', val = None \<rparr>,
      \<lparr> name = ''kmem.tcp.limit_in_bytes'', val = None \<rparr>,
      \<lparr> name = ''oom_control'', val = None \<rparr>,
      \<lparr> name = ''swappiness'', val = Some 60 \<rparr>]"
  let ?s' = "\<lparr> world = 3::nat, trace =
        [EvWriteFile ''/sys/fs/cgroup/memory/g/memory.limit_in_bytes'' ''0'',
         EvWriteFile ''/sys/fs/cgroup/memory/g/memory.swappiness'' ''60''] \<rparr>"
  have h1: "Memory demo_limits = Some ?mem"
    by (simp add: demo_limits_def)
  have h2: "getMemorySettings demo_limits = Return ?settings"
    by (simp add: getMemorySettings_def demo_limits_def no_memory_def getOomControlValue_def)
  have h3: "set_mem demo_os demo_memory ''g'' ?settings demo_start = (None, ?s')"
    by (simp add: WriteFile_def demo_os_def demo_start_def demo_Path FormatUint_0 FormatUint_60
        Join_def Clean_def clean_step_def)
  note t = set_writes_provided_knobs[OF h1 h2 h3]
  from t have "trace ?s' = trace demo_start @ knob_writes demo_memory ''g'' demo_limits ?mem"
    by auto
  then have k: "knob_writes demo_memory ''g'' demo_limits ?mem = trace ?s'"
    by (simp add: demo_start_def)
  from t have "set_mem demo_os demo_memory ''g'' ?settings demo_start =
      write_in_order demo_os (knob_writes demo_memory ''g'' demo_limits ?mem) demo_start"
    by blast
  with h3 k have "write_in_order demo_os (trace ?s') demo_start = (None, ?s')"
    by simp
  with h1 h2 h3 k show ?thesis by simp
qed

text \<open>
  Four knobs are provided and the first write fails: \<open>set\<close> returns its error after
  that one call, and the files of the swap limit, the kernel limit and the swappiness
  are not written.
\<close>

theorem set_stops_at_failing_write_counterexample:
  "Memory four_limits =
     Some (no_memory\<lparr> Limit := Some 80, Swap := Some 100, Kernel := Some 4096, Swappiness := Some 60 \<rparr>) \<and>
   getMemorySettings four_limits = Return
     [\<lparr> name = ''limit_in_bytes'', val = Some 80 \<rparr>,
      \<lparr> name = ''memsw.limit_in_bytes'', val = Some 100 \<rparr>,
      \<lparr> name = ''kmem.limit_in_bytes'', val = Some 4096 \<rparr>,
      \<lparr> name = ''kmem.tcp.limit_in_bytes'', val = None \<rparr>,
      \<lparr> name = ''oom_control'', val = None \<rparr>,
      \<lparr> name = ''swappiness'', val = Some 60 \<rparr>] \<and>
   set_mem stuck_os demo_memory ''g''
     [\<lparr> name = ''limit_in_bytes'', val = Some 80 \<rparr>,
      \<lparr> name = ''memsw.limit_in_bytes'', val = Some 100 \<rparr>,
      \<lparr> name = ''kmem.limit_in_bytes'', val = Some 4096 \<rparr>,
      \<lparr> name = ''kmem.tcp.limit_in_bytes'', val = None \<rparr>,
      \<lparr> name = ''oom_control'', val = None \<rparr>,
      \<lparr> name = ''swappiness'', val = Some 60 \<rparr>] demo_start =
     (Some (PathError ''write'' ''/sys/fs/cgroup/memory/g/memory.limit_in_bytes'' (Errno 22)),
      \<lparr> world = 3, trace =
         [EvWriteFile ''/sys/fs/cgroup/memory/g/memory.limit_in_bytes'' ''80''] \<rparr>) \<and>
   knob_writes demo_memory ''g'' four_limits
     (no_memory\<lparr> Limit := Some 80, Swap := Some 100, Kernel := Some 4096, Swappiness := Some 60 \<rparr>) =
     [EvWriteFile ''/sys/fs/cgroup/memory/g/memory.limit_in_bytes'' ''80'',
      EvWriteFile ''/sys/fs/cgroup/memory/g/memory.memsw.limit_in_bytes'' ''100'',
      EvWriteFile ''/sys/fs/cgroup/memory/g/memory.kmem.limit_in_bytes'' ''4096'',
      EvWriteFile ''/sys/fs/cgroup/memory/g/memory.swappiness'' ''60'']"
proof -
  have f: "FormatUint 4096 = ''4096''" "FormatUint 80 = ''80''" "FormatUint 100 = ''100''"
    by (simp_all add: FormatUint_def decimal.simps digit_def)
  have a: "Memory four_limits =
     Some (no_memory\<lparr> Limit := Some 80, Swap := Some 100, Kernel := Some 4096, Swappiness := Some 60 \<rparr>)"
    by (simp add: four_limits_def)
  have b: "getMemorySettings four_limits = Return
     [\<lparr> name = ''limit_in_bytes'', val = Some 80 \<rparr>,
      \<lparr> name = ''memsw.limit_in_bytes'', val = Some 100 \<rparr>,
      \<lparr> name = ''kmem.limit_in_bytes'', val = Some 4096 \<rparr>,
      \<lparr> name = ''kmem.tcp.limit_in_bytes'', val = None \<rparr>,
      \<lparr> name = ''oom_control'', val = None \<rparr>,
      \<lparr> name = ''swappiness'', val = Some 60 \<rparr>]"
    by (simp add: getMemorySettings_def four_limits_def no_memory_def getOomControlValue_def)
  have c: "set_mem stuck_os demo_memory ''g''
     [\<lparr> name = ''limit_in_bytes'', val = Some 80 \<rparr>,
      \<lparr> name = ''memsw.limit_in_bytes'', val = Some 100 \<rparr>,
      \<lparr> name = ''kmem.limit_in_bytes'', val = Some 4096 \<rparr>,
      \<lparr> name = ''kmem.tcp.limit_in_bytes'', val = None \<rparr>,
      \<lparr> name = ''oom_control'', val = None \<rparr>,
      \<lparr> name = ''swappiness'', val = Some 60 \<rparr>] demo_start =
     (Some (PathError ''write'' ''/sys/fs/cgroup/memory/g/memory.limit_in_bytes'' (Errno 22)),
      \<lparr> world = 3, trace =
         [EvWriteFile ''/sys/fs/cgroup/memory/g/memory.limit_in_bytes'' ''80''] \<rparr>)"
    by (simp add: WriteFile_def stuck_os_def demo_os_def demo_start_def demo_Path f
        Join_def Clean_def clean_step_def)
  have d: "knob_writes demo_memory ''g'' four_limits
     (no_memory\<lparr> Limit := Some 80, Swap := Some 100, Kernel := Some 4096, Swappiness := Some 60 \<rparr>) =
     [EvWriteFile ''/sys/fs/cgroup/memory/g/memory.limit_in_bytes'' ''80'',
      EvWriteFile ''/sys/fs/cgroup/memory/g/memory.memsw.limit_in_bytes'' ''100'',
      EvWriteFile ''/sys/fs/cgroup/memory/g/memory.kmem.limit_in_bytes'' ''4096'',
      EvWriteFile ''/sys/fs/cgroup/memory/g/memory.swappiness'' ''60'']"
    by (simp add: knob_writes_def knob_write_def knob_file_def four_limits_def no_memory_def demo_Path
        FormatUint_60 f Join_def Clean_def clean_step_def)
  from a b c d show ?thesis by simp
qed

subsection \<open>Calls and their records\<close>

lemma checkEBUSY_eq: "checkEBUSY err = (if is_EBUSY err then kmem_busy else err)"
  by (cases err rule: is_EBUSY.cases) (simp_all add: checkEBUSY_def kmem_busy_def)

lemma FormatInt_1: "FormatInt 1 = ''1''"
  by (simp add: FormatInt_def decimal.simps digit_def)

lemma FormatInt_minus_1: "FormatInt (- 1) = ''-1''"
  by (simp add: FormatInt_def decimal.simps digit_def)

lemma readUint_eq:
  "readUint sys p s = (os_readUint sys p (world s), s\<lparr> trace := trace s @ [EvReadUint p] \<rparr>)"
  by (simp add: readUint_def)

lemma drop_2_Cons: "drop 2 (a # b # xs) = xs"
  by (simp add: numeral_2_eq_2)

lemma demo_knob_files:
  "knob_file demo_memory ''g'' ''limit_in_bytes'' = ''/sys/fs/cgroup/memory/g/memory.limit_in_bytes''"
  "knob_file demo_memory ''g'' ''memsw.limit_in_bytes'' = ''/sys/fs/cgroup/memory/g/memory.memsw.limit_in_bytes''"
  by (simp_all add: knob_file_def demo_Path Join_def Clean_def clean_step_def)

lemma FormatUint_examples: "FormatUint 80 = ''80''" "FormatUint 100 = ''100''"
  by (simp_all add: FormatUint_def decimal.simps digit_def)

lemma left_open_Nil: "left_open [] = {#}"
  by (simp add: left_open_def)

subsection \<open>C7: the path of a cgroup\<close>

text \<open>
  C7. For every relative path \<open>p\<close>, \<open>Path(p)\<close> is the root of the controller joined with
  \<open>p\<close> by \<open>filepath.Join\<close>, and the root of the memory controller made from the base
  root \<open>r\<close> is \<open>r\<close> joined with \<open>memory\<close>. For an absolute base root of plain elements
  and a relative path of one or more plain elements (sub-directories included), the
  result is the text of the base root, \<open>/memory/\<close>, and the relative path. \<open>Path\<close> is
  a function of the two strings alone (it looks at no file), and it does not keep the
  result under the root: a relative path of \<open>..\<close> elements leaves it.
\<close>

theorem Path_joins_root:
  "Path m p = Join [root m, p] \<and>
   root (NewMemory r) = Join [r, ''memory''] \<and>
   (es \<noteq> [] \<and> list_all ordinary es \<and> ps \<noteq> [] \<and> list_all ordinary ps \<longrightarrow>
      Path (NewMemory (CHR ''/'' # strings_Join es ''/'')) (strings_Join ps ''/'') =
      CHR ''/'' # strings_Join es ''/'' @ ''/memory/'' @ strings_Join ps ''/'') \<and>
   Path (NewMemory ''/sys/fs/cgroup'') ''../../../etc'' = ''/sys/etc''"
proof -
  have "Path (NewMemory ''/sys/fs/cgroup'') ''../../../etc'' = ''/sys/etc''"
    by (simp add: Path_def NewMemory_def Join_def Clean_def clean_step_def Memory_Name_def)
  then show ?thesis
    using Path_plain[of es ps]
    by (simp add: Path_def NewMemory_def Memory_Name_def list_all_iff)
qed

theorem Path_joins_root_witness:
  "[''sys'', ''fs'', ''cgroup''] \<noteq> [] \<and> list_all ordinary [''sys'', ''fs'', ''cgroup''] \<and>
   [''pods'', ''mygroup''] \<noteq> [] \<and> list_all ordinary [''pods'', ''mygroup''] \<and>
   Path (NewMemory ''/sys/fs/cgroup'') ''pods/mygroup'' = ''/sys/fs/cgroup/memory/pods/mygroup''"
proof -
  have h: "[''sys'', ''fs'', ''cgroup''] \<noteq> [] \<and> list_all ordinary [''sys'', ''fs'', ''cgroup''] \<and>
   [''pods'', ''mygroup''] \<noteq> [] \<and> list_all ordinary [''pods'', ''mygroup'']"
    by (simp add: ordinary_def)
  from Path_joins_root[of _ _ _ "[''sys'', ''fs'', ''cgroup'']" "[''pods'', ''mygroup'']"] h
  have "Path (NewMemory (CHR ''/'' # strings_Join [''sys'', ''fs'', ''cgroup''] ''/''))
          (strings_Join [''pods'', ''mygroup''] ''/'') =
        CHR ''/'' # strings_Join [''sys'', ''fs'', ''cgroup''] ''/'' @ ''/memory/'' @
          strings_Join [''pods'', ''mygroup''] ''/''"
    by blast
  with h show ?thesis by simp
qed

subsection \<open>C5: registering a cgroup\<close>

text \<open>
  C5. \<open>Add\<close> on an identifier that the registry holds returns \<open>ErrAlreadyCollected\<close> and
  leaves the collector as it was, the binding of the identifier included; \<open>Add\<close> on an
  identifier that the registry does not hold returns no error and binds the identifier to
  the cgroup, every other binding kept.
\<close>

theorem Add_registers_once:
  "Add c ident cg =
     (if map_of (cgroups c) ident \<noteq> None then (Some ErrAlreadyCollected, c)
      else (None, c\<lparr> cgroups := AList.update ident cg (cgroups c) \<rparr>)) \<and>
   map_of (cgroups (snd (Add c ident cg))) =
     (if map_of (cgroups c) ident \<noteq> None then map_of (cgroups c)
      else (map_of (cgroups c))(ident \<mapsto> cg))"
  by (auto simp: Add_def update_conv' split: option.splits)

subsection \<open>C10: nil resources\<close>



subsection \<open>C3: the probe of the kernel-memory limit\<close>

text \<open>
  C3. When the resources give a kernel-memory limit, \<open>Create\<close> makes the directory, then
  writes the text \<open>1\<close> and then the text \<open>-1\<close> to \<open>memory.kmem.limit_in_bytes\<close>, and
  then applies the settings list. A failure of the directory creation is returned as it
  is. When one of the two writes fails, \<open>Create\<close> returns at once: the error returned is
  the "tasks have already joined this cgroup or it has children" error when the write
  failed with EBUSY, and the error of the write itself otherwise.
\<close>

theorem Create_kmem_probe:
  assumes "Memory r = Some mem" "Kernel mem = Some k" "getMemorySettings r = Return settings"
  shows "Create sys m path (Some r) s =
     (case MkdirAll sys (Path m path) s of
        (Some err, s1) \<Rightarrow> (Return (Some err), s1)
      | (None, s1) \<Rightarrow>
          (case WriteFile sys (Join [Path m path, ''memory.kmem.limit_in_bytes'']) ''1'' s1 of
             (Some err, s2) \<Rightarrow> (Return (Some (if is_EBUSY err then kmem_busy else err)), s2)
           | (None, s2) \<Rightarrow>
               (case WriteFile sys (Join [Path m path, ''memory.kmem.limit_in_bytes'']) ''-1'' s2 of
                  (Some err, s3) \<Rightarrow> (Return (Some (if is_EBUSY err then kmem_busy else err)), s3)
                | (None, s3) \<Rightarrow>
                    (case set_mem sys m path settings s3 of (err, s4) \<Rightarrow> (Return err, s4)))))
     \<and> kmem_busy = ErrorString ''failed to set memory.kmem.limit_in_bytes, because either tasks have already joined this cgroup or it has children''"
  using assms
  by (simp add: Create_def checkEBUSY_eq FormatInt_1 FormatInt_minus_1 kmem_busy_def
      split: prod.splits option.splits)

theorem Create_kmem_probe_witness:
  "Memory kernel_limit = Some (no_memory\<lparr> Kernel := Some 4096 \<rparr>) \<and>
   Kernel (no_memory\<lparr> Kernel := Some 4096 \<rparr>) = Some 4096 \<and>
   getMemorySettings kernel_limit = Return
     [\<lparr> name = ''limit_in_bytes'', val = None \<rparr>,
      \<lparr> name = ''memsw.limit_in_bytes'', val = None \<rparr>,
      \<lparr> name = ''kmem.limit_in_bytes'', val = Some 4096 \<rparr>,
      \<lparr> name = ''kmem.tcp.limit_in_bytes'', val = None \<rparr>,
      \<lparr> name = ''oom_control'', val = None \<rparr>,
      \<lparr> name = ''swappiness'', val = None \<rparr>] \<and>
   Create busy_os demo_memory ''g'' (Some kernel_limit) demo_start =
     (Return (Some kmem_busy),
      \<lparr> world = 3, trace =
         [EvMkdirAll ''/sys/fs/cgroup/memory/g'',
          EvWriteFile ''/sys/fs/cgroup/memory/g/memory.kmem.limit_in_bytes'' ''1'',
          EvWriteFile ''/sys/fs/cgroup/memory/g/memory.kmem.limit_in_bytes'' ''-1''] \<rparr>) \<and>
   Create demo_os demo_memory ''g'' (Some kernel_limit) demo_start =
     (Return None,
      \<lparr> world = 3, trace =
         [EvMkdirAll ''/sys/fs/cgroup/memory/g'',
          EvWriteFile ''/sys/fs/cgroup/memory/g/memory.kmem.limit_in_bytes'' ''1'',
          EvWriteFile ''/sys/fs/cgroup/memory/g/memory.kmem.limit_in_bytes'' ''-1'',
          EvWriteFile ''/sys/fs/cgroup/memory/g/memory.kmem.limit_in_bytes'' ''4096''] \<rparr>)"
proof -
  let ?settings = "[\<lparr> name = ''limit_in_bytes'', val = None \<rparr>,
      \<lparr> name = ''memsw.limit_in_bytes'', val = None \<rparr>,
      \<lparr> name = ''kmem.limit_in_bytes'', val = Some 4096 \<rparr>,
      \<lparr> name = ''kmem.tcp.limit_in_bytes'', val = None \<rparr>,
      \<lparr> name = ''oom_control'', val = None \<rparr>,
      \<lparr> name = ''swappiness'', val = None \<rparr>]"
  have h1: "Memory kernel_limit = Some (no_memory\<lparr> Kernel := Some 4096 \<rparr>)"
    by (simp add: kernel_limit_def)
  have h2: "Kernel (no_memory\<lparr> Kernel := Some 4096 \<rparr>) = Some 4096"
    by simp
  have h3: "getMemorySettings kernel_limit = Return ?settings"
    by (simp add: getMemorySettings_def kernel_limit_def no_memory_def getOomControlValue_def)
  have f: "FormatUint 4096 = ''4096''"
    by (simp add: FormatUint_def decimal.simps digit_def)
  have j: "Join [''/sys/fs/cgroup/memory/g'', ''memory.kmem.limit_in_bytes''] =
      ''/sys/fs/cgroup/memory/g/memory.kmem.limit_in_bytes''"
    by (simp add: Join_def Clean_def clean_step_def)
  have busy: "Create busy_os demo_memory ''g'' (Some kernel_limit) demo_start =
     (Return (Some kmem_busy),
      \<lparr> world = 3, trace =
         [EvMkdirAll ''/sys/fs/cgroup/memory/g'',
          EvWriteFile ''/sys/fs/cgroup/memory/g/memory.kmem.limit_in_bytes'' ''1'',
          EvWriteFile ''/sys/fs/cgroup/memory/g/memory.kmem.limit_in_bytes'' ''-1''] \<rparr>)"
    using Create_kmem_probe[OF h1 h2 h3, of busy_os demo_memory "''g''" demo_start]
    by (simp add: MkdirAll_def WriteFile_def busy_os_def demo_os_def demo_start_def demo_Path j)
  have ok: "Create demo_os demo_memory ''g'' (Some kernel_limit) demo_start =
     (Return None,
      \<lparr> world = 3, trace =
         [EvMkdirAll ''/sys/fs/cgroup/memory/g'',
          EvWriteFile ''/sys/fs/cgroup/memory/g/memory.kmem.limit_in_bytes'' ''1'',
          EvWriteFile ''/sys/fs/cgroup/memory/g/memory.kmem.limit_in_bytes'' ''-1'',
          EvWriteFile ''/sys/fs/cgroup/memory/g/memory.kmem.limit_in_bytes'' ''4096''] \<rparr>)"
    using Create_kmem_probe[OF h1 h2 h3, of demo_os demo_memory "''g''" demo_start]
    by (simp add: MkdirAll_def WriteFile_def demo_os_def demo_start_def demo_Path j f)
  from h1 h2 h3 busy ok show ?thesis by simp
qed

subsection \<open>C1: the order of the memory and swap limits\<close>

text \<open>
  C1, as the code has it. The claim holds for a memory limit and a swap limit that are
  both provided and both greater than zero: \<open>Update\<close> reads
  \<open>memory.limit_in_bytes\<close> first; an error of that read is returned with no write made;
  when the value read is smaller than the new swap limit, the settings are applied with
  the first two entries exchanged, the swap limit before the memory limit; otherwise
  they are applied in their order, the memory limit before the swap limit.
\<close>

theorem Update_order:
  assumes "Memory r = Some mem" "Limit mem = Some l" "Swap mem = Some sw" "0 < l" "0 < sw"
    and "getMemorySettings r = Return settings"
  shows "settings ! 0 = \<lparr> name = ''limit_in_bytes'', val = Some l \<rparr> \<and>
     settings ! 1 = \<lparr> name = ''memsw.limit_in_bytes'', val = Some sw \<rparr> \<and>
     Update sys m path (Some r) s =
       (case os_readUint sys (knob_file m path ''limit_in_bytes'') (world s) of
          Inl err \<Rightarrow>
            (Return (Some err), s\<lparr> trace := trace s @ [EvReadUint (knob_file m path ''limit_in_bytes'')] \<rparr>)
        | Inr current \<Rightarrow>
            (case set_mem sys m path
                    (if current < sw then settings ! 1 # settings ! 0 # drop 2 settings
                     else settings ! 0 # settings ! 1 # drop 2 settings)
                    (s\<lparr> trace := trace s @ [EvReadUint (knob_file m path ''limit_in_bytes'')] \<rparr>) of
               (err, s') \<Rightarrow> (Return err, s')))"
proof -
  from assms have st: "settings =
     [\<lparr> name = ''limit_in_bytes'', val = Some l \<rparr>,
      \<lparr> name = ''memsw.limit_in_bytes'', val = Some sw \<rparr>,
      \<lparr> name = ''kmem.limit_in_bytes'', val = Kernel mem \<rparr>,
      \<lparr> name = ''kmem.tcp.limit_in_bytes'', val = KernelTCP mem \<rparr>,
      \<lparr> name = ''oom_control'', val = getOomControlValue r \<rparr>,
      \<lparr> name = ''swappiness'', val = Swappiness mem \<rparr>]"
    by (simp add: getMemorySettings_def case_option_id)
  have gg: "g (Limit mem) \<and> g (Swap mem)"
    using assms by (simp add: g_def)
  have kf: "Join [Path m path, ''memory.limit_in_bytes''] = knob_file m path ''limit_in_bytes''"
    by (simp add: knob_file_def)
  have gm: "getMemorySettings r = Return
     [\<lparr> name = ''limit_in_bytes'', val = Some l \<rparr>,
      \<lparr> name = ''memsw.limit_in_bytes'', val = Some sw \<rparr>,
      \<lparr> name = ''kmem.limit_in_bytes'', val = Kernel mem \<rparr>,
      \<lparr> name = ''kmem.tcp.limit_in_bytes'', val = KernelTCP mem \<rparr>,
      \<lparr> name = ''oom_control'', val = getOomControlValue r \<rparr>,
      \<lparr> name = ''swappiness'', val = Swappiness mem \<rparr>]"
    using assms(6) st by simp
  show ?thesis
    unfolding st using assms(1,3) gg gm
    by (simp add: Update_def readUint_eq kf numeral_2_eq_2 split: sum.splits)
qed

theorem Update_order_witness:
  "Memory both_limits = Some (no_memory\<lparr> Limit := Some 80, Swap := Some 100 \<rparr>) \<and>
   Limit (no_memory\<lparr> Limit := Some 80, Swap := Some 100 \<rparr>) = Some 80 \<and>
   Swap (no_memory\<lparr> Limit := Some 80, Swap := Some 100 \<rparr>) = Some 100 \<and>
   (0 :: u64) < 80 \<and> (0 :: u64) < 100 \<and>
   getMemorySettings both_limits = Return
     [\<lparr> name = ''limit_in_bytes'', val = Some 80 \<rparr>,
      \<lparr> name = ''memsw.limit_in_bytes'', val = Some 100 \<rparr>,
      \<lparr> name = ''kmem.limit_in_bytes'', val = None \<rparr>,
      \<lparr> name = ''kmem.tcp.limit_in_bytes'', val = None \<rparr>,
      \<lparr> name = ''oom_control'', val = None \<rparr>,
      \<lparr> name = ''swappiness'', val = None \<rparr>] \<and>
   Update demo_os demo_memory ''g'' (Some both_limits) demo_start =
     (Return None,
      \<lparr> world = 3, trace =
         [EvReadUint ''/sys/fs/cgroup/memory/g/memory.limit_in_bytes'',
          EvWriteFile ''/sys/fs/cgroup/memory/g/memory.memsw.limit_in_bytes'' ''100'',
          EvWriteFile ''/sys/fs/cgroup/memory/g/memory.limit_in_bytes'' ''80''] \<rparr>) \<and>
   Update (demo_os\<lparr> os_readUint := (\<lambda>p w. Inr 200) \<rparr>) demo_memory ''g'' (Some both_limits) demo_start =
     (Return None,
      \<lparr> world = 3, trace =
         [EvReadUint ''/sys/fs/cgroup/memory/g/memory.limit_in_bytes'',
          EvWriteFile ''/sys/fs/cgroup/memory/g/memory.limit_in_bytes'' ''80'',
          EvWriteFile ''/sys/fs/cgroup/memory/g/memory.memsw.limit_in_bytes'' ''100''] \<rparr>) \<and>
   Update (demo_os\<lparr> os_readUint := (\<lambda>p w. Inl (PathError ''open'' p (Errno 2))) \<rparr>) demo_memory ''g''
       (Some both_limits) demo_start =
     (Return (Some (PathError ''open'' ''/sys/fs/cgroup/memory/g/memory.limit_in_bytes'' (Errno 2))),
      \<lparr> world = 3, trace = [EvReadUint ''/sys/fs/cgroup/memory/g/memory.limit_in_bytes''] \<rparr>)"
proof -
  let ?mem = "no_memory\<lparr> Limit := Some 80, Swap := Some 100 \<rparr>"
  let ?settings = "[\<lparr> name = ''limit_in_bytes'', val = Some 80 \<rparr>,
      \<lparr> name = ''memsw.limit_in_bytes'', val = Some 100 \<rparr>,
      \<lparr> name = ''kmem.limit_in_bytes'', val = None \<rparr>,
      \<lparr> name = ''kmem.tcp.limit_in_bytes'', val = None \<rparr>,
      \<lparr> name = ''oom_control'', val = None \<rparr>,
      \<lparr> name = ''swappiness'', val = None \<rparr>]"
  have h1: "Memory both_limits = Some ?mem" by (simp add: both_limits_def)
  have h2: "Limit ?mem = Some 80" by simp
  have h3: "Swap ?mem = Some 100" by simp
  have h4: "(0 :: u64) < 80" by simp
  have h5: "(0 :: u64) < 100" by simp
  have h6: "getMemorySettings both_limits = Return ?settings"
    by (simp add: getMemorySettings_def both_limits_def no_memory_def getOomControlValue_def)
  note u = Update_order[OF h1 h2 h3 h4 h5 h6, of _ demo_memory "''g''" demo_start, THEN conjunct2, THEN conjunct2]
  have j: "Join [''/sys/fs/cgroup/memory/g'', ''memory.limit_in_bytes''] = ''/sys/fs/cgroup/memory/g/memory.limit_in_bytes''"
     "Join [''/sys/fs/cgroup/memory/g'', ''memory.memsw.limit_in_bytes''] = ''/sys/fs/cgroup/memory/g/memory.memsw.limit_in_bytes''"
    by (simp_all add: Join_def Clean_def clean_step_def)
  have a: "Update demo_os demo_memory ''g'' (Some both_limits) demo_start =
     (Return None,
      \<lparr> world = 3, trace =
         [EvReadUint ''/sys/fs/cgroup/memory/g/memory.limit_in_bytes'',
          EvWriteFile ''/sys/fs/cgroup/memory/g/memory.memsw.limit_in_bytes'' ''100'',
          EvWriteFile ''/sys/fs/cgroup/memory/g/memory.limit_in_bytes'' ''80''] \<rparr>)"
    by (subst u)
       (simp add: demo_knob_files WriteFile_def demo_os_def demo_start_def demo_Path j
         FormatUint_examples drop_2_Cons)
  have b: "Update (demo_os\<lparr> os_readUint := (\<lambda>p w. Inr 200) \<rparr>) demo_memory ''g'' (Some both_limits) demo_start =
     (Return None,
      \<lparr> world = 3, trace =
         [EvReadUint ''/sys/fs/cgroup/memory/g/memory.limit_in_bytes'',
          EvWriteFile ''/sys/fs/cgroup/memory/g/memory.limit_in_bytes'' ''80'',
          EvWriteFile ''/sys/fs/cgroup/memory/g/memory.memsw.limit_in_bytes'' ''100''] \<rparr>)"
    by (subst u)
       (simp add: demo_knob_files WriteFile_def demo_os_def demo_start_def demo_Path j
         FormatUint_examples drop_2_Cons)
  have c: "Update (demo_os\<lparr> os_readUint := (\<lambda>p w. Inl (PathError ''open'' p (Errno 2))) \<rparr>) demo_memory ''g''
       (Some both_limits) demo_start =
     (Return (Some (PathError ''open'' ''/sys/fs/cgroup/memory/g/memory.limit_in_bytes'' (Errno 2))),
      \<lparr> world = 3, trace = [EvReadUint ''/sys/fs/cgroup/memory/g/memory.limit_in_bytes''] \<rparr>)"
    by (subst u) (simp add: demo_knob_files demo_os_def demo_start_def)
  from h1 h2 h3 h4 h5 h6 a b c show ?thesis by simp
qed

text \<open>
  A memory limit provided as zero is written (as \<open>0\<close>) like any other, but the closure
  \<open>g\<close> of \<open>Update\<close> does not count it: with the limit 0 and the swap limit 100, where
  \<open>memory.limit_in_bytes\<close> reads 50, \<open>Update\<close> reads nothing and writes the memory
  limit before the swap limit.
\<close>

theorem Update_zero_limit_counterexample:
  "Memory zero_limit = Some (no_memory\<lparr> Limit := Some 0, Swap := Some 100 \<rparr>) \<and>
   Limit (no_memory\<lparr> Limit := Some 0, Swap := Some 100 \<rparr>) = Some 0 \<and>
   Swap (no_memory\<lparr> Limit := Some 0, Swap := Some 100 \<rparr>) = Some 100 \<and>
   os_readUint demo_os ''/sys/fs/cgroup/memory/g/memory.limit_in_bytes'' (world demo_start) = Inr 50 \<and>
   (50 :: u64) < 100 \<and>
   Update demo_os demo_memory ''g'' (Some zero_limit) demo_start =
     (Return None,
      \<lparr> world = 3, trace =
         [EvWriteFile ''/sys/fs/cgroup/memory/g/memory.limit_in_bytes'' ''0'',
          EvWriteFile ''/sys/fs/cgroup/memory/g/memory.memsw.limit_in_bytes'' ''100''] \<rparr>)"
proof -
  have j: "Join [''/sys/fs/cgroup/memory/g'', ''memory.limit_in_bytes''] = ''/sys/fs/cgroup/memory/g/memory.limit_in_bytes''"
     "Join [''/sys/fs/cgroup/memory/g'', ''memory.memsw.limit_in_bytes''] = ''/sys/fs/cgroup/memory/g/memory.memsw.limit_in_bytes''"
    by (simp_all add: Join_def Clean_def clean_step_def)
  show ?thesis
    by (simp add: zero_limit_def no_memory_def Update_def getMemorySettings_def getOomControlValue_def
        g_def WriteFile_def demo_os_def demo_start_def demo_Path j FormatUint_0 FormatUint_examples)
qed

subsection \<open>The example system and the event descriptor\<close>

lemma demo_event_files:
  "Join [''/sys/fs/cgroup/memory/g'', ''memory.oom_control''] = ''/sys/fs/cgroup/memory/g/memory.oom_control''"
  "Join [''/sys/fs/cgroup/memory/g'', ''cgroup.event_control''] = ''/sys/fs/cgroup/memory/g/cgroup.event_control''"
  by (simp_all add: Join_def Clean_def clean_step_def)

lemma decimal_examples: "decimal 3 = ''3''" "decimal 4 = ''4''"
  by (simp_all add: decimal.simps digit_def)

lemma demo_OOMEventFD:
  "OOMEventFD demo_os demo_memory ''g'' demo_start =
     ((4, None),
      \<lparr> world = 6, trace =
         [EvOpen ''/sys/fs/cgroup/memory/g/memory.oom_control'' (Some 3),
          EvEventfd (Some 4),
          EvOpenFile ''/sys/fs/cgroup/memory/g/cgroup.event_control'' (Some 5),
          EvWriteString 5 ''4 3'',
          EvFileClose 5,
          EvFileClose 3] \<rparr>)"
  by (simp add: OOMEventFD_def Open_def eventfd2_def writeEventFD_def OpenFile_def WriteString_def
      FileClose_def Sprintf_d_d_def demo_os_def demo_start_def demo_Path demo_event_files
      decimal_examples)

lemma deaf_OOMEventFD:
  "OOMEventFD deaf_os demo_memory ''g'' demo_start =
     ((0, Some (PathError ''write'' ''cgroup.event_control'' (Errno 22))),
      \<lparr> world = 6, trace =
         [EvOpen ''/sys/fs/cgroup/memory/g/memory.oom_control'' (Some 3),
          EvEventfd (Some 4),
          EvOpenFile ''/sys/fs/cgroup/memory/g/cgroup.event_control'' (Some 5),
          EvWriteString 5 ''4 3'',
          EvFileClose 5,
          EvSyscallClose 4,
          EvFileClose 3] \<rparr>)"
  by (simp add: OOMEventFD_def Open_def eventfd2_def writeEventFD_def OpenFile_def WriteString_def
      FileClose_def syscall_Close_def Sprintf_d_d_def deaf_os_def demo_os_def demo_start_def
      demo_Path demo_event_files decimal_examples)

subsection \<open>C8: what is written to the event-control file\<close>

text \<open>
  C8. When \<open>OOMEventFD\<close> succeeds, the calls it has made are: the open of
  \<open>memory.oom_control\<close>, the creation of the event descriptor, the open of
  \<open>cgroup.event_control\<close>, one write to that file, and the two closes of the files. The
  text written is the event descriptor in decimal, one space, and the descriptor of the
  open \<open>memory.oom_control\<close> in decimal; the event descriptor is the one returned.
\<close>

theorem OOMEventFD_write_format:
  assumes "OOMEventFD sys m path s = ((fd, None), s')"
  shows "\<exists>cfd f. trace s' = trace s @
     [EvOpen (Join [Path m path, ''memory.oom_control'']) (Some cfd),
      EvEventfd (Some fd),
      EvOpenFile (Join [Path m path, ''cgroup.event_control'']) (Some f),
      EvWriteString f (decimal fd @ '' '' @ decimal cfd),
      EvFileClose f,
      EvFileClose cfd]"
  using assms
  by (auto simp: OOMEventFD_def Open_def eventfd2_def writeEventFD_def OpenFile_def WriteString_def
      FileClose_def syscall_Close_def Sprintf_d_d_def Let_def
      split: prod.splits sum.splits if_splits option.splits)

theorem OOMEventFD_write_format_witness:
  "OOMEventFD demo_os demo_memory ''g'' demo_start =
     ((4, None),
      \<lparr> world = 6, trace =
         [EvOpen ''/sys/fs/cgroup/memory/g/memory.oom_control'' (Some 3),
          EvEventfd (Some 4),
          EvOpenFile ''/sys/fs/cgroup/memory/g/cgroup.event_control'' (Some 5),
          EvWriteString 5 ''4 3'',
          EvFileClose 5,
          EvFileClose 3] \<rparr>) \<and>
   (\<exists>cfd f. EvWriteString 5 ''4 3'' = EvWriteString f (decimal 4 @ '' '' @ decimal cfd) \<and>
      EvOpen ''/sys/fs/cgroup/memory/g/memory.oom_control'' (Some 3) =
      EvOpen (Join [Path demo_memory ''g'', ''memory.oom_control'']) (Some cfd))"
proof -
  from OOMEventFD_write_format[OF demo_OOMEventFD]
  have "\<exists>cfd f. EvWriteString 5 ''4 3'' = EvWriteString f (decimal 4 @ '' '' @ decimal cfd) \<and>
      EvOpen ''/sys/fs/cgroup/memory/g/memory.oom_control'' (Some 3) =
      EvOpen (Join [Path demo_memory ''g'', ''memory.oom_control'']) (Some cfd)"
    by (simp add: demo_start_def)
  with demo_OOMEventFD show ?thesis by simp
qed

subsection \<open>C9: no descriptor is left open by a failed registration\<close>

text \<open>
  C9. When \<open>OOMEventFD\<close> returns an error, it returns the descriptor 0, every event
  descriptor it has created has been closed by \<open>syscall.Close\<close> among its calls, and no
  descriptor it has obtained is left open. When it returns no error, the one descriptor
  left open is the event descriptor it returns, and \<open>syscall.Close\<close> has not been
  called.
\<close>

theorem OOMEventFD_no_leak:
  assumes "OOMEventFD sys m path s = ((r, res), s')"
  shows "\<exists>new. trace s' = trace s @ new \<and>
     (case res of
        Some err \<Rightarrow>
          r = 0 \<and> left_open new = {#} \<and>
          (\<forall>efd. EvEventfd (Some efd) \<in> set new \<longrightarrow> EvSyscallClose efd \<in> set new)
      | None \<Rightarrow>
          left_open new = {#r#} \<and> EvEventfd (Some r) \<in> set new \<and>
          (\<forall>fd. EvSyscallClose fd \<notin> set new))"
  using assms
  by (auto simp: OOMEventFD_def Open_def eventfd2_def writeEventFD_def OpenFile_def WriteString_def
      FileClose_def syscall_Close_def Let_def left_open_def
      split: prod.splits sum.splits if_splits option.splits)

theorem OOMEventFD_no_leak_witness:
  "OOMEventFD deaf_os demo_memory ''g'' demo_start =
     ((0, Some (PathError ''write'' ''cgroup.event_control'' (Errno 22))),
      \<lparr> world = 6, trace =
         [EvOpen ''/sys/fs/cgroup/memory/g/memory.oom_control'' (Some 3),
          EvEventfd (Some 4),
          EvOpenFile ''/sys/fs/cgroup/memory/g/cgroup.event_control'' (Some 5),
          EvWriteString 5 ''4 3'',
          EvFileClose 5,
          EvSyscallClose 4,
          EvFileClose 3] \<rparr>) \<and>
   left_open
     [EvOpen ''/sys/fs/cgroup/memory/g/memory.oom_control'' (Some 3),
      EvEventfd (Some 4),
      EvOpenFile ''/sys/fs/cgroup/memory/g/cgroup.event_control'' (Some 5),
      EvWriteString 5 ''4 3'',
      EvFileClose 5,
      EvSyscallClose 4,
      EvFileClose 3] = {#} \<and>
   left_open
     [EvOpen ''/sys/fs/cgroup/memory/g/memory.oom_control'' (Some 3),
      EvEventfd (Some 4),
      EvOpenFile ''/sys/fs/cgroup/memory/g/cgroup.event_control'' (Some 5),
      EvWriteString 5 ''4 3'',
      EvFileClose 5,
      EvFileClose 3] = {#4#}"
proof -
  from OOMEventFD_no_leak[OF deaf_OOMEventFD]
  have a: "left_open
     [EvOpen ''/sys/fs/cgroup/memory/g/memory.oom_control'' (Some 3),
      EvEventfd (Some 4),
      EvOpenFile ''/sys/fs/cgroup/memory/g/cgroup.event_control'' (Some 5),
      EvWriteString 5 ''4 3'',
      EvFileClose 5,
      EvSyscallClose 4,
      EvFileClose 3] = {#}"
    by (simp add: demo_start_def)
  from OOMEventFD_no_leak[OF demo_OOMEventFD]
  have b: "left_open
     [EvOpen ''/sys/fs/cgroup/memory/g/memory.oom_control'' (Some 3),
      EvEventfd (Some 4),
      EvOpenFile ''/sys/fs/cgroup/memory/g/cgroup.event_control'' (Some 5),
      EvWriteString 5 ''4 3'',
      EvFileClose 5,
      EvFileClose 3] = {#4#}"
    by (simp add: demo_start_def)
  from deaf_OOMEventFD a b show ?thesis by simp
qed

subsection \<open>Reading the statistics\<close>

lemma parse_lines_fails:
  "isl (parse_lines pkv steps out) \<longleftrightarrow> list_ex read_error steps \<or> list_ex (malformed pkv) steps"
proof (induction steps arbitrary: out)
  case Nil
  then show ?case by simp
next
  case (Cons sc steps)
  obtain ln scerr where sc: "sc = (ln, scerr)" by (cases sc)
  show ?case
  proof (cases scerr)
    case (Some err)
    with sc show ?thesis by (simp add: read_error_def)
  next
    case None
    show ?thesis
    proof (cases "pkv ln")
      case (Inl err)
      with sc None show ?thesis by (simp add: malformed_def)
    next
      case (Inr kv)
      with sc None Cons.IH show ?thesis
        by (cases kv) (simp add: read_error_def malformed_def)
    qed
  qed
qed

lemma parse_lines_absent:
  "parse_lines pkv steps out = Inr raw \<Longrightarrow> \<not> list_ex (has_key pkv k) steps \<Longrightarrow> raw k = out k"
proof (induction steps arbitrary: out)
  case Nil
  then show ?case by simp
next
  case (Cons sc steps)
  obtain ln scerr where sc: "sc = (ln, scerr)" by (cases sc)
  from Cons.prems sc obtain key v where
    p: "scerr = None" "pkv ln = Inr (key, v)" "parse_lines pkv steps (out(key \<mapsto> v)) = Inr raw"
    by (auto split: option.splits sum.splits)
  from Cons.prems(2) have hk: "\<not> has_key pkv k sc" "\<not> list_ex (has_key pkv k) steps"
    by simp_all
  from hk(1) sc p have "key \<noteq> k"
    by (simp add: has_key_def)
  with Cons.IH[OF p(3) hk(2)] show ?case by simp
qed

lemma readUint_world: "world (snd (readUint sys p s)) = world s"
  by (simp add: readUint_def)

lemma read_fields_fails:
  "read_fields sys m path module fs e s = ((res, e'), s') \<Longrightarrow>
     world s' = world s \<and>
     (res \<noteq> None \<longleftrightarrow>
        list_ex (\<lambda>f. isl (os_readUint sys (Join [Path m path, usage_file module (fst f)]) (world s))) fs)"
proof (induction fs arbitrary: e s)
  case Nil
  then show ?case by simp
next
  case (Cons f fs)
  obtain nm setv where f: "f = (nm, setv)" by (cases f)
  show ?case
  proof (cases "os_readUint sys (Join [Path m path, usage_file module nm]) (world s)")
    case (Inl err)
    with Cons.prems f show ?thesis by (auto simp: readUint_def)
  next
    case (Inr v)
    with Cons.prems f have
      "read_fields sys m path module fs (setv v e) (s\<lparr> trace := trace s @ [EvReadUint (Join [Path m path, usage_file module nm])] \<rparr>) = ((res, e'), s')"
      by (simp add: readUint_def)
    from Cons.IH[OF this] Inr f show ?thesis by simp
  qed
qed

lemma read_modules_fails:
  "read_modules sys m path mods ms s = ((res, ms'), s') \<Longrightarrow>
     world s' = world s \<and>
     (res \<noteq> None \<longleftrightarrow>
        list_ex (\<lambda>md. list_ex (\<lambda>f. isl (os_readUint sys (Join [Path m path, usage_file (fst md) (fst f)]) (world s)))
                         usage_fields) mods)"
proof (induction mods arbitrary: ms s)
  case Nil
  then show ?case by simp
next
  case (Cons md mods)
  obtain module entry set_entry where md: "md = (module, entry, set_entry)" by (cases md)
  obtain r1 e1 s1 where rf: "read_fields sys m path module usage_fields (entry ms) s = ((r1, e1), s1)"
    by (metis surj_pair)
  note f = read_fields_fails[OF rf]
  show ?case
  proof (cases r1)
    case (Some err)
    with Cons.prems md rf f show ?thesis by auto
  next
    case None
    with Cons.prems md rf have "read_modules sys m path mods (set_entry e1 ms) s1 = ((res, ms'), s')"
      by simp
    from Cons.IH[OF this] f None md show ?thesis by simp
  qed
qed

lemma read_modules_frame:
  assumes "read_modules sys m path mods ms s = ((res, ms'), s')"
    and "\<forall>md\<in>set mods. \<forall>e x. field (snd (snd md) e x) = field x"
  shows "field ms' = field ms"
  using assms
proof (induction mods arbitrary: ms s)
  case Nil
  then show ?case by simp
next
  case (Cons md mods)
  obtain module entry set_entry where md: "md = (module, entry, set_entry)" by (cases md)
  obtain r1 e1 s1 where rf: "read_fields sys m path module usage_fields (entry ms) s = ((r1, e1), s1)"
    by (metis surj_pair)
  from Cons.prems(2) md have fr: "field (set_entry e1 ms) = field ms" by simp
  show ?case
  proof (cases r1)
    case (Some err)
    with Cons.prems md rf fr show ?thesis by auto
  next
    case None
    with Cons.prems md rf have "read_modules sys m path mods (set_entry e1 ms) s1 = ((res, ms'), s')"
      by simp
    from Cons.IH[OF this] Cons.prems(2) fr show ?thesis by simp
  qed
qed

lemma usage_files_tables:
  "list_ex P usage_files \<longleftrightarrow>
     list_ex (\<lambda>md. list_ex (\<lambda>f. P (usage_file (fst md) (fst f))) usage_fields) usage_modules"
  by (simp add: usage_files_def usage_modules_def usage_fields_def usage_file_def disj_ac)

lemma named_frame:
  "list_all (\<lambda>kf. \<forall>md\<in>set usage_modules. \<forall>e x. snd kf (snd (snd md) e x) = snd kf x) named_fields"
  by (simp add: named_fields_def usage_modules_def)

lemma named_init:
  "list_all (\<lambda>kf. snd kf (named_stats raw) = raw_get raw (fst kf)) named_fields"
  by (simp add: named_fields_def named_stats_def)

lemma named_zero:
  assumes "read_modules sys m path usage_modules (named_stats raw) s = ((res, ms), s')"
    and "parse_lines pkv steps Map.empty = Inr raw"
  shows "list_all (\<lambda>(k, field). \<not> list_ex (has_key pkv k) steps \<longrightarrow> field ms = 0) named_fields"
proof -
  have "field ms = 0"
    if kf: "(k, field) \<in> set named_fields" and ab: "\<not> list_ex (has_key pkv k) steps" for k field
  proof -
    from kf named_frame have "\<forall>md\<in>set usage_modules. \<forall>e x. field (snd (snd md) e x) = field x"
      by (force simp: list_all_iff)
    from read_modules_frame[OF assms(1) this] have "field ms = field (named_stats raw)" .
    also from kf named_init[of raw] have "\<dots> = raw_get raw k"
      by (force simp: list_all_iff)
    also from parse_lines_absent[OF assms(2) ab] have "\<dots> = 0"
      by (simp add: raw_get_def)
    finally show ?thesis .
  qed
  then show ?thesis by (auto simp: list_all_iff)
qed

lemma parseStats_eq:
  "parseStats sys pkv m path s =
     (case os_Scan sys (Join [Path m path, ''memory.stat'']) (world s) of
        Inl err \<Rightarrow> Inl err
      | Inr steps \<Rightarrow> parse_lines pkv steps Map.empty,
      s\<lparr> trace := trace s @ [EvScan (Join [Path m path, ''memory.stat''])] \<rparr>)"
  by (simp add: parseStats_def Scan_def split: sum.splits)

lemma demo_stat_file:
  "Join [Path demo_memory ''g'', ''memory.stat''] = ''/sys/fs/cgroup/memory/g/memory.stat''"
  by (simp add: demo_Path Join_def Clean_def clean_step_def)

lemma demo_lines:
  "parseKV ''cache 1024'' = Inr (''cache'', 1024)" "parseKV ''rss 2048'' = Inr (''rss'', 2048)"
  by (simp_all add: parseKV_def)

lemma demo_read_modules:
  "fst (read_modules demo_os demo_memory ''g'' usage_modules ms s) =
     (None, ms\<lparr> stat_Usage := demo_entry, stat_Swap := demo_entry,
                stat_Kernel := demo_entry, stat_KernelTCP := demo_entry \<rparr>)"
  by (simp add: usage_modules_def usage_fields_def readUint_def demo_os_def demo_entry_def)

lemma demo_Stat:
  "fst (Stat demo_os parseKV demo_memory ''g'' (Some no_stats) demo_start) =
     Return (None, Some (no_stats\<lparr> Stats_Memory := Some demo_stats \<rparr>))"
proof -
  have sc: "os_Scan demo_os p w = Inr [(''cache 1024'', None), (''rss 2048'', None)]" for p w
    by (simp add: demo_os_def)
  obtain r s2 where rm: "read_modules demo_os demo_memory ''g'' usage_modules
       (named_stats [''cache'' \<mapsto> 1024, ''rss'' \<mapsto> 2048])
       (demo_start\<lparr> trace := trace demo_start @ [EvScan (Join [Path demo_memory ''g'', ''memory.stat''])] \<rparr>) = (r, s2)"
    by (metis surj_pair)
  with demo_read_modules[of "named_stats [''cache'' \<mapsto> 1024, ''rss'' \<mapsto> 2048]"
      "demo_start\<lparr> trace := trace demo_start @ [EvScan (Join [Path demo_memory ''g'', ''memory.stat''])] \<rparr>"]
  have "r = (None, demo_stats)" by (simp add: demo_stats_def)
  with rm show ?thesis
    by (simp add: Stat_def parseStats_eq sc demo_lines)
qed

subsection \<open>C4: when Stat fails\<close>

text \<open>
  C4, as the code has it. With a snapshot to fill, \<open>Stat\<close> fails if and only if
  \<open>memory.stat\<close> cannot be opened, or the scanner reports a read error together with
  one of its lines, or one of its lines is malformed, or one of the sixteen usage files
  cannot be read. A key that no line of \<open>memory.stat\<close> gives is no failure: whenever the
  lines are read and parsed, the snapshot is set and each named field whose key is absent
  is zero.
\<close>

theorem Stat_fails_iff:
  "((\<exists>err st'. fst (Stat sys pkv m path (Some st) s) = Return (Some err, st')) \<longleftrightarrow>
      (case os_Scan sys (Join [Path m path, ''memory.stat'']) (world s) of
         Inl err \<Rightarrow> True
       | Inr steps \<Rightarrow> list_ex read_error steps \<or> list_ex (malformed pkv) steps) \<or>
      list_ex (\<lambda>f. isl (os_readUint sys (Join [Path m path, f]) (world s))) usage_files) \<and>
   (\<forall>steps res st'.
      os_Scan sys (Join [Path m path, ''memory.stat'']) (world s) = Inr steps \<longrightarrow>
      \<not> list_ex read_error steps \<longrightarrow> \<not> list_ex (malformed pkv) steps \<longrightarrow>
      fst (Stat sys pkv m path (Some st) s) = Return (res, st') \<longrightarrow>
      (\<exists>ms. st' = Some (st\<lparr> Stats_Memory := Some ms \<rparr>) \<and>
         list_all (\<lambda>(k, field). \<not> list_ex (has_key pkv k) steps \<longrightarrow> field ms = 0) named_fields))"
proof (cases "os_Scan sys (Join [Path m path, ''memory.stat'']) (world s)")
  case (Inl err)
  then show ?thesis by (simp add: Stat_def parseStats_eq)
next
  case (Inr steps)
  let ?s1 = "s\<lparr> trace := trace s @ [EvScan (Join [Path m path, ''memory.stat''])] \<rparr>"
  show ?thesis
  proof (cases "parse_lines pkv steps Map.empty")
    case (Inl err)
    with parse_lines_fails[of pkv steps Map.empty]
    have "list_ex read_error steps \<or> list_ex (malformed pkv) steps" by simp
    with Inl Inr show ?thesis by (auto simp: Stat_def parseStats_eq)
  next
    case raw: (Inr raw)
    with parse_lines_fails[of pkv steps Map.empty]
    have ok: "\<not> list_ex read_error steps" "\<not> list_ex (malformed pkv) steps" by simp_all
    obtain res ms s2 where
      rm: "read_modules sys m path usage_modules (named_stats raw) ?s1 = ((res, ms), s2)"
      by (metis surj_pair)
    have st: "fst (Stat sys pkv m path (Some st) s) = Return (res, Some (st\<lparr> Stats_Memory := Some ms \<rparr>))"
      using Inr raw rm by (simp add: Stat_def parseStats_eq)
    from read_modules_fails[OF rm]
    have f: "res \<noteq> None \<longleftrightarrow>
       list_ex (\<lambda>f. isl (os_readUint sys (Join [Path m path, f]) (world s))) usage_files"
      by (simp add: usage_files_tables)
    have z: "list_all (\<lambda>(k, field). \<not> list_ex (has_key pkv k) steps \<longrightarrow> field ms = 0) named_fields"
      using named_zero[OF rm raw] .
    from f have "(\<exists>err st'. fst (Stat sys pkv m path (Some st) s) = Return (Some err, st')) \<longleftrightarrow>
       list_ex (\<lambda>f. isl (os_readUint sys (Join [Path m path, f]) (world s))) usage_files"
      unfolding st by auto
    with ok Inr z st show ?thesis by auto
  qed
qed

theorem Stat_fails_iff_witness:
  "os_Scan demo_os (Join [Path demo_memory ''g'', ''memory.stat'']) (world demo_start) =
     Inr [(''cache 1024'', None), (''rss 2048'', None)] \<and>
   \<not> list_ex read_error [(''cache 1024'', None), (''rss 2048'', None)] \<and>
   \<not> list_ex (malformed parseKV) [(''cache 1024'', None), (''rss 2048'', None)] \<and>
   \<not> list_ex (\<lambda>f. isl (os_readUint demo_os (Join [Path demo_memory ''g'', f]) (world demo_start))) usage_files \<and>
   fst (Stat demo_os parseKV demo_memory ''g'' (Some no_stats) demo_start) =
     Return (None, Some (no_stats\<lparr> Stats_Memory := Some demo_stats \<rparr>)) \<and>
   \<not> list_ex (has_key parseKV ''dirty'') [(''cache 1024'', None), (''rss 2048'', None)] \<and>
   Dirty demo_stats = 0 \<and> Cache demo_stats = 1024 \<and> RSS demo_stats = 2048"
proof -
  let ?steps = "[(''cache 1024'', None :: error option), (''rss 2048'', None)]"
  have h1: "os_Scan demo_os (Join [Path demo_memory ''g'', ''memory.stat'']) (world demo_start) = Inr ?steps"
    by (simp add: demo_os_def)
  have h2: "\<not> list_ex read_error ?steps"
    by (simp add: read_error_def)
  have h3: "\<not> list_ex (malformed parseKV) ?steps"
    by (simp add: malformed_def demo_lines)
  have h4: "\<not> list_ex (\<lambda>f. isl (os_readUint demo_os (Join [Path demo_memory ''g'', f]) (world demo_start))) usage_files"
    by (simp add: demo_os_def usage_files_def)
  have h5: "\<not> list_ex (has_key parseKV ''dirty'') ?steps"
    by (simp add: has_key_def demo_lines)
  from Stat_fails_iff[of demo_os parseKV demo_memory "''g''" no_stats demo_start, THEN conjunct2] h1 h2 h3 demo_Stat
  obtain ms where ms: "Some (no_stats\<lparr> Stats_Memory := Some demo_stats \<rparr>) = Some (no_stats\<lparr> Stats_Memory := Some ms \<rparr>)"
    "list_all (\<lambda>(k, field). \<not> list_ex (has_key parseKV k) ?steps \<longrightarrow> field ms = 0) named_fields"
    by blast
  from ms(1) have "ms = demo_stats"
    by (simp add: no_stats_def)
  with ms(2) h5 have d: "Dirty demo_stats = 0"
    by (simp add: named_fields_def)
  have c: "Cache demo_stats = 1024" "RSS demo_stats = 2048"
    by (simp_all add: demo_stats_def named_stats_def raw_get_def)
  from h1 h2 h3 h4 h5 demo_Stat d c show ?thesis by simp
qed

text \<open>
  The scanner's error is looked at inside the loop, before the line is parsed: where
  \<open>memory.stat\<close> opens, its one line \<open>cache 1024\<close> is well-formed and every usage file
  reads, but the scanner reports a read error with the line, \<open>Stat\<close> fails with that
  error.
\<close>

theorem Stat_read_error_counterexample:
  "fst (Stat broken_os parseKV demo_memory ''g'' (Some no_stats) demo_start) =
     Return (Some (PathError ''read'' ''/sys/fs/cgroup/memory/g/memory.stat'' (Errno 5)), Some no_stats) \<and>
   os_Scan broken_os (Join [Path demo_memory ''g'', ''memory.stat'']) (world demo_start) =
     Inr [(''cache 1024'', Some (PathError ''read'' ''/sys/fs/cgroup/memory/g/memory.stat'' (Errno 5)))] \<and>
   \<not> list_ex (malformed parseKV)
       [(''cache 1024'', Some (PathError ''read'' ''/sys/fs/cgroup/memory/g/memory.stat'' (Errno 5)))] \<and>
   \<not> list_ex (\<lambda>f. isl (os_readUint broken_os (Join [Path demo_memory ''g'', f]) (world demo_start))) usage_files"
  by (simp add: Stat_def parseStats_eq broken_os_def demo_os_def demo_stat_file malformed_def
      demo_lines usage_files_def)

subsection \<open>Runs of Collect\<close>

lemma sum_list_map_update:
  fixes f :: "'a \<Rightarrow> 'b :: comm_monoid_add"
  shows "i < length xs \<Longrightarrow> sum_list (map f (xs[i := y])) + f (xs ! i) = sum_list (map f xs) + f y"
proof (induction xs arbitrary: i)
  case Nil
  then show ?case by simp
next
  case (Cons x xs)
  then show ?case by (cases i) (simp_all add: ac_simps)
qed

lemma map_update_same: "i < length xs \<Longrightarrow> f y = f (xs ! i) \<Longrightarrow> map f (xs[i := y]) = map f xs"
  by (simp add: map_update list_update_same_conv)

lemma filter_update_length:
  "i < length xs \<Longrightarrow>
     length (filter P (xs[i := y])) + (if P (xs ! i) then 1 else 0) =
     length (filter P xs) + (if P y then 1 else 0)"
proof (induction xs arbitrary: i)
  case Nil
  then show ?case by simp
next
  case (Cons x xs)
  then show ?case by (cases i) auto
qed

lemma mset_remove_nth:
  "k < length xs \<Longrightarrow> add_mset (xs ! k) (mset (take k xs @ drop (Suc k) xs)) = mset xs"
  by (metis add_mset_add_single id_take_nth_drop mset.simps(2) mset_append union_mset_add_mset_right)

lemma init_inv: "inv e c init"
  by (simp add: inv_def init_def todo_of_def)

lemma Collect_step_inv:
  assumes "inv e c s" "Collect_step c k s = Some s'"
  shows "inv e c s'"
proof (cases "main s")
  case MStart
  with assms show ?thesis
    by (auto simp: Collect_step_def inv_def todo_of_def)
next
  case (MRange todo)
  show ?thesis
  proof (cases "todo = []")
    case True
    with MRange assms show ?thesis
      by (auto simp: Collect_step_def inv_def todo_of_def)
  next
    case False
    with MRange assms(2) have k: "k < length todo"
      and s': "s' = s\<lparr> main := MRange (take k todo @ drop (Suc k) todo),
                      wg := wg s + 1,
                      gos := gos s @ [\<lparr> g_id = fst (todo ! k), g_cg = snd (todo ! k), g_state = GStat \<rparr>] \<rparr>"
      by (auto simp: Collect_step_def split: if_splits)
    let ?gr = "\<lparr> g_id = fst (todo ! k), g_cg = snd (todo ! k), g_state = GStat \<rparr> :: ('a, 'f) goroutine"
    have b: "binding ?gr = todo ! k" by (simp add: binding_def)
    have l: "live ?gr" by (simp add: live_def)
    have p: "pending e c ?gr = contribution e c (todo ! k)"
      by (simp add: pending_def b)
    have pl: "pending_log e ?gr = complaint e (todo ! k)"
      by (simp add: pending_log_def b)
    from assms(1) MRange have i1: "mset todo + mset (map binding (gos s)) = mset (cgroups c)"
      by (simp add: inv_def todo_of_def)
    define rest where "rest = take k todo @ drop (Suc k) todo"
    have "mset todo = add_mset (todo ! k) (mset rest)"
      unfolding rest_def using mset_remove_nth[OF k] by simp
    with i1 have "mset rest + mset (map binding (gos s @ [?gr])) = mset (cgroups c)"
      by (simp add: b)
    then have "mset (take k todo @ drop (Suc k) todo) + mset (map binding (gos s @ [?gr])) = mset (cgroups c)"
      unfolding rest_def .
    moreover from assms(1) have "wg s + 1 = int (length (filter live (gos s @ [?gr])))"
      by (simp add: inv_def l)
    moreover from assms(1) have
      "mset (ch s) + sum_list (map (pending e c) (gos s @ [?gr])) =
         sum_list (map (\<lambda>gr. contribution e c (binding gr)) (gos s @ [?gr]))"
      by (simp add: inv_def p b)
    moreover from assms(1) have
      "mset (logged s) + sum_list (map (pending_log e) (gos s @ [?gr])) =
         sum_list (map (\<lambda>gr. complaint e (binding gr)) (gos s @ [?gr]))"
      by (simp add: inv_def pl b)
    ultimately show ?thesis
      unfolding s' by (simp add: inv_def todo_of_def)
  qed
next
  case MWait
  with assms show ?thesis
    by (auto simp: Collect_step_def inv_def todo_of_def split: if_splits)
next
  case MReturned
  with assms show ?thesis by (simp add: Collect_step_def)
qed

lemma go_update_inv:
  assumes i: "i < length (gos s)"
    and b: "binding gr' = binding (gos s ! i)"
    and w: "w' = wg s - (if live (gos s ! i) \<and> \<not> live gr' then 1 else 0)"
    and lv: "live gr' \<longrightarrow> live (gos s ! i)"
    and p: "mset ch' + pending e c gr' = mset (ch s) + pending e c (gos s ! i)"
    and pl: "mset lg' + pending_log e gr' = mset (logged s) + pending_log e (gos s ! i)"
    and r: "main s = MReturned \<longrightarrow> w' = wg s"
    and "inv e c s"
  shows "inv e c (s\<lparr> wg := w', gos := (gos s)[i := gr'], ch := ch', logged := lg' \<rparr>)"
proof -
  let ?gs = "(gos s)[i := gr']"
  from \<open>inv e c s\<close> have
    i1: "mset (todo_of c s) + mset (map binding (gos s)) = mset (cgroups c)" and
    i2: "wg s = int (length (filter live (gos s)))" and
    i3: "mset (ch s) + sum_list (map (pending e c) (gos s)) =
           sum_list (map (\<lambda>gr. contribution e c (binding gr)) (gos s))" and
    i4: "mset (logged s) + sum_list (map (pending_log e) (gos s)) =
           sum_list (map (\<lambda>gr. complaint e (binding gr)) (gos s))" and
    i5: "main s = MReturned \<longrightarrow> wg s = 0"
    unfolding inv_def by blast+
  have m1: "map binding ?gs = map binding (gos s)"
    using i b by (rule map_update_same)
  have m2: "map (\<lambda>gr. contribution e c (binding gr)) ?gs = map (\<lambda>gr. contribution e c (binding gr)) (gos s)"
    using i b by (intro map_update_same) simp_all
  have m3: "map (\<lambda>gr. complaint e (binding gr)) ?gs = map (\<lambda>gr. complaint e (binding gr)) (gos s)"
    using i b by (intro map_update_same) simp_all
  have j2: "w' = int (length (filter live ?gs))"
    using filter_update_length[OF i, of live gr'] i2 w lv by (auto split: if_splits)
  have "mset ch' + sum_list (map (pending e c) ?gs) + pending e c (gos s ! i) =
        mset (ch s) + sum_list (map (pending e c) (gos s)) + pending e c (gos s ! i)"
    using sum_list_map_update[OF i, of "pending e c" gr'] p
    by (metis (no_types, lifting) add.assoc add.commute)
  then have j3: "mset ch' + sum_list (map (pending e c) ?gs) =
      sum_list (map (\<lambda>gr. contribution e c (binding gr)) ?gs)"
    using i3 m2 by simp
  have "mset lg' + sum_list (map (pending_log e) ?gs) + pending_log e (gos s ! i) =
        mset (logged s) + sum_list (map (pending_log e) (gos s)) + pending_log e (gos s ! i)"
    using sum_list_map_update[OF i, of "pending_log e" gr'] pl
    by (metis (no_types, lifting) add.assoc add.commute)
  then have j4: "mset lg' + sum_list (map (pending_log e) ?gs) =
      sum_list (map (\<lambda>gr. complaint e (binding gr)) ?gs)"
    using i4 m3 by simp
  from i1 m1 j2 j3 j4 i5 r show ?thesis
    by (simp add: inv_def todo_of_def)
qed

lemma live_not_returned:
  assumes "inv e c s" "i < length (gos s)" "live (gos s ! i)"
  shows "main s \<noteq> MReturned"
proof
  assume "main s = MReturned"
  moreover from assms(1) have "wg s = int (length (filter live (gos s)))"
    "main s = MReturned \<longrightarrow> wg s = 0"
    unfolding inv_def by blast+
  ultimately have "length (filter live (gos s)) = 0"
    by simp
  then have "\<forall>gr\<in>set (gos s). \<not> live gr"
    by (simp add: filter_empty_conv)
  with assms(2,3) show False by simp
qed

lemma collect_step_inv:
  assumes "inv e c s" "collect_step e c i s = Some s'"
  shows "inv e c s'"
proof -
  from assms(2) have i: "i < length (gos s)"
    by (simp add: collect_step_def split: if_splits)
  define gr where "gr = gos s ! i"
  show ?thesis
  proof (cases "g_state gr")
    case GStat
    show ?thesis
    proof (cases "cg_Stat e (g_cg gr)")
      case (Inl err)
      with GStat assms(2) i have s': "s' = s\<lparr> wg := wg s, gos := (gos s)[i := gr\<lparr> g_state := GSend [] \<rparr>],
          ch := ch s, logged := logged s @ [(err, g_id gr)] \<rparr>"
        by (auto simp: collect_step_def gr_def[symmetric])
      show ?thesis
        unfolding s' using i GStat Inl assms(1)
        by (intro go_update_inv)
           (simp_all add: gr_def[symmetric] binding_def live_def pending_def pending_log_def
             contribution_def complaint_def)
    next
      case (Inr stats)
      with GStat assms(2) i have s': "s' = s\<lparr> wg := wg s,
          gos := (gos s)[i := gr\<lparr> g_state := GSend (samples e c (g_id gr) stats) \<rparr>],
          ch := ch s, logged := logged s \<rparr>"
        by (auto simp: collect_step_def gr_def[symmetric])
      show ?thesis
        unfolding s' using i GStat Inr assms(1)
        by (intro go_update_inv)
           (simp_all add: gr_def[symmetric] binding_def live_def pending_def pending_log_def
             contribution_def complaint_def)
    qed
  next
    case (GSend xs)
    then have lv: "live (gos s ! i)" by (simp add: live_def gr_def)
    note nr = live_not_returned[OF assms(1) i lv]
    show ?thesis
    proof (cases xs)
      case Nil
      with GSend assms(2) i have s': "s' = s\<lparr> wg := wg s - 1,
          gos := (gos s)[i := gr\<lparr> g_state := GDone \<rparr>], ch := ch s, logged := logged s \<rparr>"
        by (auto simp: collect_step_def gr_def[symmetric])
      show ?thesis
        unfolding s' using i GSend Nil assms(1) nr
        by (intro go_update_inv)
           (simp_all add: gr_def[symmetric] binding_def live_def pending_def pending_log_def)
    next
      case (Cons x xs')
      with GSend assms(2) i have s': "s' = s\<lparr> wg := wg s,
          gos := (gos s)[i := gr\<lparr> g_state := GSend xs' \<rparr>], ch := ch s @ [x], logged := logged s \<rparr>"
        by (auto simp: collect_step_def gr_def[symmetric])
      show ?thesis
        unfolding s' using i GSend Cons assms(1)
        by (intro go_update_inv)
           (simp_all add: gr_def[symmetric] binding_def live_def pending_def pending_log_def)
    qed
  next
    case GDone
    with assms(2) i show ?thesis
      by (simp add: collect_step_def gr_def[symmetric])
  qed
qed

lemma step_inv: "inv e c s \<Longrightarrow> step e c a s = Some s' \<Longrightarrow> inv e c s'"
  by (cases a) (auto simp: step_def intro: Collect_step_inv collect_step_inv)

lemma run_inv: "inv e c s \<Longrightarrow> run e c sched s = Some s' \<Longrightarrow> inv e c s'"
proof (induction sched arbitrary: s)
  case Nil
  then show ?case by simp
next
  case (Cons a sched)
  then show ?case
    by (auto split: option.splits dest: step_inv)
qed

lemma sum_list_as_mset:
  fixes f :: "'a \<Rightarrow> 'b :: comm_monoid_add"
  shows "sum_list (map f xs) = sum_mset (image_mset f (mset xs))"
  by (induction xs) simp_all

lemma sum_list_all_zero:
  fixes f :: "'a \<Rightarrow> 'b :: monoid_add"
  shows "\<forall>x\<in>set xs. f x = 0 \<Longrightarrow> sum_list (map f xs) = 0"
  by (induction xs) simp_all

lemma returned_state:
  assumes "inv e c s" "main s = MReturned"
  shows "list_all (\<lambda>gr. g_state gr = GDone) (gos s)"
    and "mset (map binding (gos s)) = mset (cgroups c)"
    and "mset (ch s) = sum_mset (image_mset (contribution e c) (mset (cgroups c)))"
    and "mset (logged s) = sum_mset (image_mset (complaint e) (mset (cgroups c)))"
proof -
  from assms(1) have
    i1: "mset (todo_of c s) + mset (map binding (gos s)) = mset (cgroups c)" and
    i2: "wg s = int (length (filter live (gos s)))" and
    i3: "mset (ch s) + sum_list (map (pending e c) (gos s)) =
           sum_list (map (\<lambda>gr. contribution e c (binding gr)) (gos s))" and
    i4: "mset (logged s) + sum_list (map (pending_log e) (gos s)) =
           sum_list (map (\<lambda>gr. complaint e (binding gr)) (gos s))" and
    i5: "main s = MReturned \<longrightarrow> wg s = 0"
    unfolding inv_def by blast+
  from i2 i5 assms(2) have "length (filter live (gos s)) = 0" by simp
  then have d: "\<forall>gr\<in>set (gos s). g_state gr = GDone"
    by (simp add: filter_empty_conv live_def)
  then show "list_all (\<lambda>gr. g_state gr = GDone) (gos s)"
    by (simp add: list_all_iff)
  from i1 assms(2) show b: "mset (map binding (gos s)) = mset (cgroups c)"
    by (simp add: todo_of_def)
  from d have p: "sum_list (map (pending e c) (gos s)) = {#}"
    by (intro sum_list_all_zero) (simp add: pending_def)
  from d have pl: "sum_list (map (pending_log e) (gos s)) = {#}"
    by (intro sum_list_all_zero) (simp add: pending_log_def)
  have "sum_list (map (\<lambda>gr. contribution e c (binding gr)) (gos s)) =
      sum_mset (image_mset (contribution e c) (mset (map binding (gos s))))"
    by (simp add: sum_list_as_mset image_mset.compositionality comp_def)
  with i3 p b show "mset (ch s) = sum_mset (image_mset (contribution e c) (mset (cgroups c)))"
    by simp
  have "sum_list (map (\<lambda>gr. complaint e (binding gr)) (gos s)) =
      sum_mset (image_mset (complaint e) (mset (map binding (gos s))))"
    by (simp add: sum_list_as_mset image_mset.compositionality comp_def)
  with i4 pl b show "mset (logged s) = sum_mset (image_mset (complaint e) (mset (cgroups c)))"
    by simp
qed

lemma one_failure:
  assumes "distinct (cgroups c)"
    and "(bad, cgb) \<in> set (cgroups c)" "cg_Stat e cgb = Inl err"
    and "\<forall>b\<in>set (cgroups c). b \<noteq> (bad, cgb) \<longrightarrow> cg_Stat e (snd b) = Inr (st b)"
  shows "sum_mset (image_mset (contribution e c) (mset (cgroups c))) =
           sum_mset (image_mset (\<lambda>b. mset (samples e c (fst b) (st b))) (mset (cgroups c) - {#(bad, cgb)#}))"
    and "sum_mset (image_mset (complaint e) (mset (cgroups c))) = {#(err, bad)#}"
proof -
  let ?rest = "mset (cgroups c) - {#(bad, cgb)#}"
  from assms(2) have split: "mset (cgroups c) = add_mset (bad, cgb) ?rest"
    by simp
  have other: "b \<in> set (cgroups c) \<and> b \<noteq> (bad, cgb)" if "b \<in># ?rest" for b
  proof -
    from that have "b \<in># mset (cgroups c)" by (rule in_diffD)
    then have "b \<in> set (cgroups c)" by simp
    moreover have "b \<noteq> (bad, cgb)"
    proof
      assume eq: "b = (bad, cgb)"
      have z: "count ?rest (bad, cgb) = 0"
        using assms(1,2) by (simp add: distinct_count_atmost_1)
      have "(bad, cgb) \<notin># ?rest"
        unfolding not_in_iff by (rule z)
      with that eq show False by simp
    qed
    ultimately show ?thesis by simp
  qed
  have c1: "image_mset (contribution e c) ?rest = image_mset (\<lambda>b. mset (samples e c (fst b) (st b))) ?rest"
    using other assms(4) by (intro image_mset_cong) (simp add: contribution_def)
  have c2: "image_mset (complaint e) ?rest = image_mset (\<lambda>b. {#}) ?rest"
    using other assms(4) by (intro image_mset_cong) (simp add: complaint_def)
  have "sum_mset (image_mset (contribution e c) (mset (cgroups c))) =
      contribution e c (bad, cgb) + sum_mset (image_mset (contribution e c) ?rest)"
    by (subst split) simp
  with c1 assms(3) show "sum_mset (image_mset (contribution e c) (mset (cgroups c))) =
           sum_mset (image_mset (\<lambda>b. mset (samples e c (fst b) (st b))) ?rest)"
    by (simp add: contribution_def)
  have "sum_mset (image_mset (complaint e) (mset (cgroups c))) =
      complaint e (bad, cgb) + sum_mset (image_mset (complaint e) ?rest)"
    by (subst split) simp
  with c2 assms(3) show "sum_mset (image_mset (complaint e) (mset (cgroups c))) = {#(err, bad)#}"
    by (simp add: complaint_def)
qed

lemma sum_list_remove_nth:
  fixes f :: "'a \<Rightarrow> nat"
  assumes "k < length xs"
  shows "sum_list (map f (take k xs @ drop (Suc k) xs)) + f (xs ! k) = sum_list (map f xs)"
proof -
  have "sum_list (map f xs) = sum_list (map f (take k xs @ xs ! k # drop (Suc k) xs))"
    using id_take_nth_drop[OF assms] by simp
  then show ?thesis by simp
qed

lemma Collect_step_decreases:
  assumes "Collect_step c k s = Some s'"
  shows "steps_left e c s' < steps_left e c s"
proof (cases "main s")
  case MStart
  with assms show ?thesis
    by (auto simp: Collect_step_def steps_left_def todo_of_def)
next
  case (MRange todo)
  show ?thesis
  proof (cases "todo = []")
    case True
    with MRange assms show ?thesis
      by (auto simp: Collect_step_def steps_left_def todo_of_def)
  next
    case False
    with MRange assms have k: "k < length todo"
      and s': "s' = s\<lparr> main := MRange (take k todo @ drop (Suc k) todo),
                      wg := wg s + 1,
                      gos := gos s @ [\<lparr> g_id = fst (todo ! k), g_cg = snd (todo ! k), g_state = GStat \<rparr>] \<rparr>"
      by (auto simp: Collect_step_def split: if_splits)
    from sum_list_remove_nth[OF k, of "\<lambda>b. 1 + work_of e c b"] MRange
    show ?thesis
      unfolding s' by (simp add: steps_left_def todo_of_def left_of_def binding_def)
  qed
next
  case MWait
  with assms show ?thesis
    by (auto simp: Collect_step_def steps_left_def todo_of_def split: if_splits)
next
  case MReturned
  with assms show ?thesis by (simp add: Collect_step_def)
qed

lemma go_update_decreases:
  assumes "i < length (gos s)" "left_of e c gr' < left_of e c (gos s ! i)"
    and "main s' = main s" "gos s' = (gos s)[i := gr']"
  shows "steps_left e c s' < steps_left e c s"
proof -
  from sum_list_map_update[OF assms(1), of "left_of e c" gr'] assms(2)
  have "sum_list (map (left_of e c) ((gos s)[i := gr'])) < sum_list (map (left_of e c) (gos s))"
    by linarith
  with assms(3,4) show ?thesis
    by (simp add: steps_left_def todo_of_def)
qed

lemma collect_step_decreases:
  assumes "collect_step e c i s = Some s'"
  shows "steps_left e c s' < steps_left e c s"
proof -
  from assms have i: "i < length (gos s)"
    by (simp add: collect_step_def split: if_splits)
  define gr where "gr = gos s ! i"
  show ?thesis
  proof (cases "g_state gr")
    case GStat
    show ?thesis
    proof (cases "cg_Stat e (g_cg gr)")
      case (Inl err)
      with GStat assms i have "main s' = main s" "gos s' = (gos s)[i := gr\<lparr> g_state := GSend [] \<rparr>]"
        by (auto simp: collect_step_def gr_def[symmetric])
      then show ?thesis
        using i GStat Inl
        by (intro go_update_decreases[where gr' = "gr\<lparr> g_state := GSend [] \<rparr>" and i = i])
           (simp_all add: gr_def[symmetric] left_of_def work_of_def binding_def)
    next
      case (Inr stats)
      with GStat assms i have "main s' = main s"
        "gos s' = (gos s)[i := gr\<lparr> g_state := GSend (samples e c (g_id gr) stats) \<rparr>]"
        by (auto simp: collect_step_def gr_def[symmetric])
      then show ?thesis
        using i GStat Inr
        by (intro go_update_decreases[where gr' = "gr\<lparr> g_state := GSend (samples e c (g_id gr) stats) \<rparr>" and i = i])
           (simp_all add: gr_def[symmetric] left_of_def work_of_def binding_def)
    qed
  next
    case (GSend xs)
    show ?thesis
    proof (cases xs)
      case Nil
      with GSend assms i have "main s' = main s" "gos s' = (gos s)[i := gr\<lparr> g_state := GDone \<rparr>]"
        by (auto simp: collect_step_def gr_def[symmetric])
      then show ?thesis
        using i GSend Nil
        by (intro go_update_decreases[where gr' = "gr\<lparr> g_state := GDone \<rparr>" and i = i])
           (simp_all add: gr_def[symmetric] left_of_def)
    next
      case (Cons x xs')
      with GSend assms i have "main s' = main s" "gos s' = (gos s)[i := gr\<lparr> g_state := GSend xs' \<rparr>]"
        by (auto simp: collect_step_def gr_def[symmetric])
      then show ?thesis
        using i GSend Cons
        by (intro go_update_decreases[where gr' = "gr\<lparr> g_state := GSend xs' \<rparr>" and i = i])
           (simp_all add: gr_def[symmetric] left_of_def)
    qed
  next
    case GDone
    with assms i show ?thesis
      by (simp add: collect_step_def gr_def[symmetric])
  qed
qed

lemma step_decreases: "step e c a s = Some s' \<Longrightarrow> steps_left e c s' < steps_left e c s"
  by (cases a) (auto simp: step_def intro: Collect_step_decreases collect_step_decreases)

lemma run_bound:
  "run e c sched s = Some s' \<Longrightarrow> length sched + steps_left e c s' \<le> steps_left e c s"
proof (induction sched arbitrary: s)
  case Nil
  then show ?case by simp
next
  case (Cons a sched)
  from Cons.prems obtain s1 where s1: "step e c a s = Some s1" "run e c sched s1 = Some s'"
    by (auto split: option.splits)
  from Cons.IH[OF s1(2)] step_decreases[OF s1(1)] show ?case by simp
qed

lemma progress:
  assumes "inv e c s" "main s \<noteq> MReturned"
  shows "\<exists>a s'. step e c a s = Some s'"
proof (cases "main s")
  case MStart
  then have "step e c (Main 0) s = Some (s\<lparr> main := MRange (cgroups c) \<rparr>)"
    by (simp add: step_def Collect_step_def)
  then show ?thesis by blast
next
  case (MRange todo)
  then have "\<exists>s'. step e c (Main 0) s = Some s'"
    by (simp add: step_def Collect_step_def)
  then show ?thesis by blast
next
  case MWait
  show ?thesis
  proof (cases "wg s = 0")
    case True
    with MWait have "step e c (Main 0) s = Some (s\<lparr> main := MReturned \<rparr>)"
      by (simp add: step_def Collect_step_def)
    then show ?thesis by blast
  next
    case False
    moreover from assms(1) have "wg s = int (length (filter live (gos s)))"
      unfolding inv_def by blast
    ultimately have "filter live (gos s) \<noteq> []" by auto
    then obtain gr where "gr \<in> set (gos s)" "live gr"
      by (auto simp: filter_empty_conv)
    then obtain i where i: "i < length (gos s)" "live (gos s ! i)"
      by (auto simp: in_set_conv_nth)
    then have "\<exists>s'. step e c (Go i) s = Some s'"
      by (cases "g_state (gos s ! i)")
         (auto simp: step_def collect_step_def live_def Let_def split: sum.splits list.splits)
    then show ?thesis by blast
  qed
next
  case MReturned
  with assms(2) show ?thesis by simp
qed

lemma can_return:
  "inv e c s \<Longrightarrow> \<exists>sched s'. run e c sched s = Some s' \<and> main s' = MReturned"
proof (induction "steps_left e c s" arbitrary: s rule: less_induct)
  case less
  show ?case
  proof (cases "main s = MReturned")
    case True
    then have "run e c [] s = Some s \<and> main s = MReturned" by simp
    then show ?thesis by blast
  next
    case False
    from progress[OF less.prems False] obtain a s1 where a: "step e c a s = Some s1"
      by blast
    from less.hyps[OF step_decreases[OF a] step_inv[OF less.prems a]]
    obtain sched s' where "run e c sched s1 = Some s'" "main s' = MReturned"
      by blast
    with a have "run e c (a # sched) s = Some s' \<and> main s' = MReturned" by simp
    then show ?thesis by blast
  qed
qed

lemma Add_keeps_distinct:
  "distinct (map fst (cgroups c)) \<Longrightarrow> distinct (map fst (cgroups (snd (Add c ident cg))))"
  by (simp add: Add_def distinct_update split: option.splits)

lemma demo_registry: "cgroups demo_collector = [(''a'', ''here''), (''b'', ''gone'')]"
  by (simp add: demo_collector_def Add_def)

lemma demo_run:
  "run demo_env demo_collector demo_schedule init =
     Some \<lparr> main = MReturned, wg = 0,
            gos = [\<lparr> g_id = ''b'', g_cg = ''gone'', g_state = GDone \<rparr>,
                   \<lparr> g_id = ''a'', g_cg = ''here'', g_state = GDone \<rparr>],
            ch = [(''cpu'', ''a'', 7), (''memory'', ''a'', 7)],
            logged = [(ErrorString ''no such file or directory'', ''b'')] \<rparr>"
proof -
  have m: "metrics demo_collector = [''cpu'', ''memory'']"
    by (simp add: demo_collector_def Add_def)
  show ?thesis
    by (simp add: demo_schedule_def init_def step_def Collect_step_def collect_step_def demo_registry
        samples_def m demo_env_def)
qed

lemma mset_concat_sum: "mset (concat xss) = sum_list (map mset xss)"
  by (induction xss) simp_all

lemma samples_mset:
  "mset (samples e c ident stats) =
     sum_list (map (\<lambda>m. mset (m_collect e m ident stats (ns c))) (metrics c))"
  by (simp add: samples_def mset_concat_sum comp_def)

lemma size_sum_list_mset:
  fixes f :: "'a \<Rightarrow> 'b multiset"
  shows "size (sum_list (map f xs)) = sum_list (map (\<lambda>x. size (f x)) xs)"
  by (induction xs) simp_all

lemma size_sum_mset_image:
  fixes f :: "'a \<Rightarrow> 'b multiset"
  shows "size (sum_mset (image_mset f M)) = sum_mset (image_mset (\<lambda>x. size (f x)) M)"
  by (induction M) simp_all

lemma sum_mset_constant:
  fixes k :: nat
  shows "sum_mset (image_mset (\<lambda>x. k) M) = size M * k"
  by (induction M) simp_all

lemma sum_list_constant:
  fixes k :: nat
  shows "\<forall>x\<in>set xs. f x = k \<Longrightarrow> sum_list (map f xs) = length xs * k"
  by (induction xs) simp_all

lemma one_sample_each:
  assumes "(bad, cgb) \<in> set (cgroups c)"
    and "\<forall>b\<in>set (cgroups c). b \<noteq> (bad, cgb) \<longrightarrow>
           (\<forall>m\<in>set (metrics c). length (m_collect e m (fst b) (st b) (ns c)) = 1)"
    and "distinct (cgroups c)"
    and "mset xs =
           sum_mset (image_mset
             (\<lambda>b. sum_list (map (\<lambda>m. mset (m_collect e m (fst b) (st b) (ns c))) (metrics c)))
             (mset (cgroups c) - {#(bad, cgb)#}))"
  shows "length xs = (length (cgroups c) - 1) * length (metrics c)"
proof -
  let ?rest = "mset (cgroups c) - {#(bad, cgb)#}"
  let ?F = "\<lambda>b. sum_list (map (\<lambda>m. mset (m_collect e m (fst b) (st b) (ns c))) (metrics c))"
  have other: "b \<in> set (cgroups c) \<and> b \<noteq> (bad, cgb)" if "b \<in># ?rest" for b
  proof -
    from that have "b \<in># mset (cgroups c)" by (rule in_diffD)
    then have "b \<in> set (cgroups c)" by simp
    moreover have "b \<noteq> (bad, cgb)"
    proof
      assume eq: "b = (bad, cgb)"
      have z: "count ?rest (bad, cgb) = 0"
        using assms(1,3) by (simp add: distinct_count_atmost_1)
      have "(bad, cgb) \<notin># ?rest"
        unfolding not_in_iff by (rule z)
      with that eq show False by simp
    qed
    ultimately show ?thesis by simp
  qed
  have sz: "size (?F b) = length (metrics c)" if "b \<in># ?rest" for b
  proof -
    from other[OF that] assms(2)
    have "\<forall>m\<in>set (metrics c). length (m_collect e m (fst b) (st b) (ns c)) = 1"
      by blast
    then have "sum_list (map (\<lambda>m. length (m_collect e m (fst b) (st b) (ns c))) (metrics c)) =
        length (metrics c) * 1"
      by (rule sum_list_constant)
    then show ?thesis by (simp add: size_sum_list_mset)
  qed
  have "length xs = size (mset xs)" by simp
  also have "\<dots> = sum_mset (image_mset (\<lambda>b. size (?F b)) ?rest)"
    unfolding assms(4) by (rule size_sum_mset_image)
  also have "image_mset (\<lambda>b. size (?F b)) ?rest = image_mset (\<lambda>b. length (metrics c)) ?rest"
    using sz by (intro image_mset_cong) simp
  also have "sum_mset (image_mset (\<lambda>b. length (metrics c)) ?rest) = size ?rest * length (metrics c)"
    by (rule sum_mset_constant)
  also from assms(1) have "size ?rest = length (cgroups c) - 1"
    by (simp add: size_Diff_singleton)
  finally show ?thesis .
qed

subsection \<open>C2: a cgroup whose Stat fails\<close>

text \<open>
  C2. Take a registry in which the \<open>Stat\<close> of exactly one tracked cgroup fails. Under
  every scheduling of \<open>Collect\<close> and its goroutines, a run takes no more steps than
  \<open>steps_left\<close> counts at the start, and a run in which \<open>Collect\<close> returns exists. When
  \<open>Collect\<close> has returned: the samples sent on the channel are, for each of the other
  cgroups and each metric descriptor of \<open>c.metrics\<close>, the samples that the descriptor's
  \<open>collect\<close> sends for that cgroup's statistics, and no other; where every descriptor
  sends one sample, that is one sample for each descriptor and each of the other cgroups;
  the log has one entry, for the failing cgroup; there is one goroutine for each tracked
  cgroup and every one of them has finished. \<open>Collect\<close> has no result, so nothing is
  raised to its caller.
\<close>

theorem Collect_skips_failing_cgroup:
  assumes "distinct (map fst (cgroups c))"
    and "(bad, cgb) \<in> set (cgroups c)" "cg_Stat e cgb = Inl err"
    and "\<forall>b\<in>set (cgroups c). b \<noteq> (bad, cgb) \<longrightarrow> cg_Stat e (snd b) = Inr (st b)"
  shows "(\<exists>sched s. run e c sched init = Some s \<and> main s = MReturned) \<and>
     (\<forall>sched s. run e c sched init = Some s \<longrightarrow>
        length sched \<le> steps_left e c (init :: ('c, 'sample) cstate) \<and>
        (main s = MReturned \<longrightarrow>
           mset (ch s) =
             sum_mset (image_mset
               (\<lambda>b. sum_list (map (\<lambda>m. mset (m_collect e m (fst b) (st b) (ns c))) (metrics c)))
               (mset (cgroups c) - {#(bad, cgb)#})) \<and>
           ((\<forall>b\<in>set (cgroups c). b \<noteq> (bad, cgb) \<longrightarrow>
                (\<forall>m\<in>set (metrics c). length (m_collect e m (fst b) (st b) (ns c)) = 1)) \<longrightarrow>
              length (ch s) = (length (cgroups c) - 1) * length (metrics c)) \<and>
           mset (logged s) = {#(err, bad)#} \<and>
           list_all (\<lambda>gr. g_state gr = GDone) (gos s) \<and>
           mset (map binding (gos s)) = mset (cgroups c)))"
proof -
  from assms(1) have d: "distinct (cgroups c)"
    by (simp add: distinct_map)
  note one = one_failure[OF d assms(2,3,4), unfolded samples_mset]
  have "\<exists>sched s. run e c sched (init :: ('c, 'sample) cstate) = Some s \<and> main s = MReturned"
    using can_return[OF init_inv] .
  moreover have "length sched \<le> steps_left e c (init :: ('c, 'sample) cstate) \<and>
        (main s = MReturned \<longrightarrow>
           mset (ch s) =
             sum_mset (image_mset
               (\<lambda>b. sum_list (map (\<lambda>m. mset (m_collect e m (fst b) (st b) (ns c))) (metrics c)))
               (mset (cgroups c) - {#(bad, cgb)#})) \<and>
           ((\<forall>b\<in>set (cgroups c). b \<noteq> (bad, cgb) \<longrightarrow>
                (\<forall>m\<in>set (metrics c). length (m_collect e m (fst b) (st b) (ns c)) = 1)) \<longrightarrow>
              length (ch s) = (length (cgroups c) - 1) * length (metrics c)) \<and>
           mset (logged s) = {#(err, bad)#} \<and>
           list_all (\<lambda>gr. g_state gr = GDone) (gos s) \<and>
           mset (map binding (gos s)) = mset (cgroups c))"
    if r: "run e c sched init = Some s" for sched and s :: "('c, 'sample) cstate"
  proof -
    from run_inv[OF init_inv r] have i: "inv e c s" .
    from run_bound[OF r] have "length sched \<le> steps_left e c (init :: ('c, 'sample) cstate)"
      by simp
    moreover have "mset (ch s) =
             sum_mset (image_mset
               (\<lambda>b. sum_list (map (\<lambda>m. mset (m_collect e m (fst b) (st b) (ns c))) (metrics c)))
               (mset (cgroups c) - {#(bad, cgb)#})) \<and>
           ((\<forall>b\<in>set (cgroups c). b \<noteq> (bad, cgb) \<longrightarrow>
                (\<forall>m\<in>set (metrics c). length (m_collect e m (fst b) (st b) (ns c)) = 1)) \<longrightarrow>
              length (ch s) = (length (cgroups c) - 1) * length (metrics c)) \<and>
           mset (logged s) = {#(err, bad)#} \<and>
           list_all (\<lambda>gr. g_state gr = GDone) (gos s) \<and>
           mset (map binding (gos s)) = mset (cgroups c)" if ret: "main s = MReturned"
    proof -
      note rs = returned_state[OF i ret]
      from rs(3) one(1) have c1: "mset (ch s) =
             sum_mset (image_mset
               (\<lambda>b. sum_list (map (\<lambda>m. mset (m_collect e m (fst b) (st b) (ns c))) (metrics c)))
               (mset (cgroups c) - {#(bad, cgb)#}))"
        by simp
      from rs(4) one(2) have c2: "mset (logged s) = {#(err, bad)#}" by simp
      have c3: "length (ch s) = (length (cgroups c) - 1) * length (metrics c)"
        if "\<forall>b\<in>set (cgroups c). b \<noteq> (bad, cgb) \<longrightarrow>
                (\<forall>m\<in>set (metrics c). length (m_collect e m (fst b) (st b) (ns c)) = 1)"
        using one_sample_each[OF assms(2) that d c1] .
      from c1 c2 c3 rs(1,2) show ?thesis by blast
    qed
    ultimately show ?thesis by blast
  qed
  ultimately show ?thesis by blast
qed

theorem Collect_skips_failing_cgroup_witness:
  "distinct (map fst (cgroups demo_collector)) \<and>
   (''b'', ''gone'') \<in> set (cgroups demo_collector) \<and>
   cg_Stat demo_env ''gone'' = Inl (ErrorString ''no such file or directory'') \<and>
   list_all (\<lambda>b. b = (''b'', ''gone'') \<or> cg_Stat demo_env (snd b) = Inr 7) (cgroups demo_collector) \<and>
   list_all (\<lambda>b. list_all (\<lambda>m. length (m_collect demo_env m (fst b) 7 (ns demo_collector)) = 1)
                     (metrics demo_collector)) (cgroups demo_collector) \<and>
   run demo_env demo_collector demo_schedule init =
     Some \<lparr> main = MReturned, wg = 0,
            gos = [\<lparr> g_id = ''b'', g_cg = ''gone'', g_state = GDone \<rparr>,
                   \<lparr> g_id = ''a'', g_cg = ''here'', g_state = GDone \<rparr>],
            ch = [(''cpu'', ''a'', 7), (''memory'', ''a'', 7)],
            logged = [(ErrorString ''no such file or directory'', ''b'')] \<rparr> \<and>
   mset [(''cpu'', ''a'', 7 :: nat), (''memory'', ''a'', 7)] =
     sum_mset (image_mset
       (\<lambda>b. sum_list (map (\<lambda>m. mset (m_collect demo_env m (fst b) 7 (ns demo_collector)))
                          (metrics demo_collector)))
       (mset (cgroups demo_collector) - {#(''b'', ''gone'')#})) \<and>
   length [(''cpu'', ''a'', 7 :: nat), (''memory'', ''a'', 7)] =
     (length (cgroups demo_collector) - 1) * length (metrics demo_collector) \<and>
   length demo_schedule \<le> steps_left demo_env demo_collector (init :: (string, string \<times> string \<times> nat) cstate)"
proof -
  have h1: "distinct (map fst (cgroups demo_collector))"
    by (simp add: demo_registry)
  have h2: "(''b'', ''gone'') \<in> set (cgroups demo_collector)"
    by (simp add: demo_registry)
  have h3: "cg_Stat demo_env ''gone'' = Inl (ErrorString ''no such file or directory'')"
    by (simp add: demo_env_def)
  have h4: "\<forall>b\<in>set (cgroups demo_collector). b \<noteq> (''b'', ''gone'') \<longrightarrow>
      cg_Stat demo_env (snd b) = Inr ((\<lambda>b. 7) b)"
    by (simp add: demo_registry demo_env_def)
  have h4': "list_all (\<lambda>b. b = (''b'', ''gone'') \<or> cg_Stat demo_env (snd b) = Inr 7) (cgroups demo_collector)"
    by (simp add: demo_registry demo_env_def)
  have h5: "list_all (\<lambda>b. list_all (\<lambda>m. length (m_collect demo_env m (fst b) 7 (ns demo_collector)) = 1)
                     (metrics demo_collector)) (cgroups demo_collector)"
    by (simp add: demo_registry demo_env_def demo_collector_def Add_def)
  then have h5': "\<forall>b\<in>set (cgroups demo_collector). b \<noteq> (''b'', ''gone'') \<longrightarrow>
      (\<forall>m\<in>set (metrics demo_collector).
         length (m_collect demo_env m (fst b) ((\<lambda>b. 7) b) (ns demo_collector)) = 1)"
    by (simp add: list_all_iff)
  note t = Collect_skips_failing_cgroup[OF h1 h2 h3 h4, THEN conjunct2, rule_format, OF demo_run]
  from t have a: "length demo_schedule \<le> steps_left demo_env demo_collector (init :: (string, string \<times> string \<times> nat) cstate)"
    by simp
  from t have b: "mset [(''cpu'', ''a'', 7 :: nat), (''memory'', ''a'', 7)] =
     sum_mset (image_mset
       (\<lambda>b. sum_list (map (\<lambda>m. mset (m_collect demo_env m (fst b) 7 (ns demo_collector)))
                          (metrics demo_collector)))
       (mset (cgroups demo_collector) - {#(''b'', ''gone'')#}))"
    by simp
  from t h5' have c: "length [(''cpu'', ''a'', 7 :: nat), (''memory'', ''a'', 7)] =
     (length (cgroups demo_collector) - 1) * length (metrics demo_collector)"
    by simp
  from h1 h2 h3 h4' h5 demo_run a b c show ?thesis by simp
qed

end
